theory Spec2Isabelle
  imports Main
begin

section \<open>Soul sizes and soul gem capacities (SoulValue.hpp)\<close>

text \<open>
  Modelled from the spec: the header \<^verbatim>\<open>SoulValue.hpp\<close> is not among the sources. The
  spec gives the order None < Petty < Lesser < Common < Greater < Grand < Black for soul
  sizes, and for capacities the white tiers followed by a Dual tier and a Black tier.
  The loops of \<^verbatim>\<open>trapsoul.cpp\<close> count over the underlying integer types
  \<^verbatim>\<open>SoulSizeValue\<close> and \<^verbatim>\<open>SoulGemCapacityValue\<close> and cast back with
  \<^verbatim>\<open>static_cast\<close>, so both enumerations are modelled by their integer values.
\<close>

type_synonym SoulSizeValue = nat
type_synonym SoulGemCapacityValue = nat
type_synonym ActorRef = nat

abbreviation (input) SoulSize_None :: SoulSizeValue where "SoulSize_None \<equiv> 0"
abbreviation (input) SoulSize_Petty :: SoulSizeValue where "SoulSize_Petty \<equiv> 1"
abbreviation (input) SoulSize_Lesser :: SoulSizeValue where "SoulSize_Lesser \<equiv> 2"
abbreviation (input) SoulSize_Common :: SoulSizeValue where "SoulSize_Common \<equiv> 3"
abbreviation (input) SoulSize_Greater :: SoulSizeValue where "SoulSize_Greater \<equiv> 4"
abbreviation (input) SoulSize_Grand :: SoulSizeValue where "SoulSize_Grand \<equiv> 5"
abbreviation (input) SoulSize_Black :: SoulSizeValue where "SoulSize_Black \<equiv> 6"

abbreviation (input) SoulGemCapacity_Petty :: SoulGemCapacityValue where "SoulGemCapacity_Petty \<equiv> 1"
abbreviation (input) SoulGemCapacity_Lesser :: SoulGemCapacityValue where "SoulGemCapacity_Lesser \<equiv> 2"
abbreviation (input) SoulGemCapacity_Common :: SoulGemCapacityValue where "SoulGemCapacity_Common \<equiv> 3"
abbreviation (input) SoulGemCapacity_Greater :: SoulGemCapacityValue where "SoulGemCapacity_Greater \<equiv> 4"
abbreviation (input) SoulGemCapacity_Grand :: SoulGemCapacityValue where "SoulGemCapacity_Grand \<equiv> 5"
abbreviation (input) SoulGemCapacity_Dual :: SoulGemCapacityValue where "SoulGemCapacity_Dual \<equiv> 6"
abbreviation (input) SoulGemCapacity_Black :: SoulGemCapacityValue where "SoulGemCapacity_Black \<equiv> 7"
abbreviation (input) SoulGemCapacity_First :: SoulGemCapacityValue where "SoulGemCapacity_First \<equiv> 1"

text \<open>
  Modelled from the spec: \<^verbatim>\<open>SoulGemCapacity::LastWhite\<close>, the last tier a white soul may be
  stored in. The Dual tier "holds either a black soul or a white Grand soul", so it is the
  last white tier. No theorem below depends on the value except where it is evaluated on
  a concrete inventory.
\<close>

definition SoulGemCapacity_LastWhite :: SoulGemCapacityValue where
  "SoulGemCapacity_LastWhite = SoulGemCapacity_Dual"

text \<open>
  Modelled from the spec: \<^verbatim>\<open>toSoulGemCapacity\<close> "maps a white size to the smallest capacity
  that can hold it unshrunk"; a black soul has its own dedicated tier.
\<close>

definition toSoulGemCapacity :: "SoulSizeValue \<Rightarrow> SoulGemCapacityValue" where
  "toSoulGemCapacity s = (if s = SoulSize_Black then SoulGemCapacity_Black else s)"

text \<open>
  Modelled from the spec: \<^verbatim>\<open>toSoulSize(SoulGemCapacity)\<close> "is its inverse for white
  tiers"; the Dual tier holds at most a white Grand soul and the Black tier a black soul.
\<close>

definition toSoulSize :: "SoulGemCapacityValue \<Rightarrow> SoulSizeValue" where
  "toSoulSize c =
     (if c \<le> SoulGemCapacity_Grand then c
      else if c = SoulGemCapacity_Dual then SoulSize_Grand
      else SoulSize_Black)"

text \<open>
  Modelled from the spec: \<^verbatim>\<open>toSoulSize(RE::SOUL_LEVEL)\<close>. The host's soul levels kNone .. kGrand are 0 .. 5 and
  map to the white soul size of the same rank.
\<close>

definition toSoulSize_level :: "nat \<Rightarrow> SoulSizeValue" where
  "toSoulSize_level l = l"

section \<open>Soul gem forms and the soul gem map\<close>

text \<open>
  Modelled from the spec: the catalog (\<^verbatim>\<open>SoulGemMap\<close>, \<^verbatim>\<open>ConcreteSoulGemGroup\<close>) is not
  among the sources. A group is one capacity tier's family of concrete kinds
  "indexed by contained-size-so-far", with "exactly one concrete kind per (capacity,
  contained-size) pair". A concrete kind is therefore identified by its group, the
  group's capacity and the contained soul size. The map lists its groups in construction
  order, which is the order of every lookup.
\<close>

datatype TESSoulGem =
  TESSoulGem (gemGroup: nat) (gemCapacity: SoulGemCapacityValue) (gemContained: SoulSizeValue)

type_synonym SoulGemMap = "(nat \<times> SoulGemCapacityValue) list"

definition validContainedSize :: "SoulGemCapacityValue \<Rightarrow> SoulSizeValue \<Rightarrow> bool" where
  "validContainedSize c s =
     (if c = SoulGemCapacity_Black then s = SoulSize_None \<or> s = SoulSize_Black
      else if c = SoulGemCapacity_Dual then s \<le> SoulSize_Black
      else s \<le> c)"

definition getSoulGemsWith ::
  "SoulGemMap \<Rightarrow> SoulGemCapacityValue \<Rightarrow> SoulSizeValue \<Rightarrow> TESSoulGem list" where
  "getSoulGemsWith m c s =
     (if validContainedSize c s
      then map (\<lambda>(g, c'). TESSoulGem g c' s) (filter (\<lambda>(g, c'). c' = c) m)
      else [])"

text \<open>\<^verbatim>\<open>_it.group().at(containedSoulSize)\<close>: the kind of the same group at another fill level.\<close>

definition soulGemAt :: "TESSoulGem \<Rightarrow> SoulSizeValue \<Rightarrow> TESSoulGem" where
  "soulGemAt g s = TESSoulGem (gemGroup g) (gemCapacity g) s"

text \<open>
  The host's view of a soul gem form: \<^verbatim>\<open>GetMaximumCapacity\<close> and \<^verbatim>\<open>GetContainedSoul\<close>
  return soul levels kNone .. kGrand, where a black soul and the Dual and Black tiers all
  read as kGrand. \<^verbatim>\<open>canHoldBlackSoul\<close> is true of the Dual and Black tiers.
\<close>

definition GetMaximumCapacity :: "TESSoulGem \<Rightarrow> nat" where
  "GetMaximumCapacity g = min 5 (gemCapacity g)"

definition GetContainedSoul :: "TESSoulGem \<Rightarrow> nat" where
  "GetContainedSoul g = min 5 (gemContained g)"

definition canHoldBlackSoul :: "TESSoulGem \<Rightarrow> bool" where
  "canHoldBlackSoul g = (SoulGemCapacity_Dual \<le> gemCapacity g)"

section \<open>Victims and the victims queue (Victim.hpp)\<close>

text \<open>
  Modelled from the spec: \<^verbatim>\<open>Victim.hpp\<close> is not among the sources. A victim is
  the immutable value (actor, soul size, flags). The three constructors used by
  \<^verbatim>\<open>trapsoul.cpp\<close> are \<^verbatim>\<open>Victim(actor)\<close> for the original victim,
  \<^verbatim>\<open>Victim(soulSize)\<close> for a displaced soul (no actor) and \<^verbatim>\<open>Victim(actor, soulSize)\<close>
  for a split soul. "Primary = true only for the originally supplied victim".
\<close>

record Victim =
  actor :: "ActorRef option"
  soulSize :: SoulSizeValue
  isSplitSoul :: bool

definition Victim_displaced :: "SoulSizeValue \<Rightarrow> Victim" where
  "Victim_displaced s = \<lparr>actor = None, soulSize = s, isSplitSoul = False\<rparr>"

definition Victim_split :: "ActorRef option \<Rightarrow> SoulSizeValue \<Rightarrow> Victim" where
  "Victim_split a s = \<lparr>actor = a, soulSize = s, isSplitSoul = True\<rparr>"

definition isPrimarySoul :: "Victim \<Rightarrow> bool" where
  "isPrimarySoul v = (actor v \<noteq> None \<and> \<not> isSplitSoul v)"

text \<open>
  Modelled from the spec: the order of victims, "a max-priority queue over Victim ordered
  by soul size". \<^verbatim>\<open>VictimsQueue\<close> is
  \<^verbatim>\<open>std::priority_queue<Victim, std::deque<Victim>>\<close>. The queue is kept as the list of
  its elements in insertion order; \<^verbatim>\<open>top\<close> is the first element of greatest soul
  size (the tie-break among equal sizes is unspecified in the source's container; the
  model fixes insertion order).
\<close>

fun top_from :: "Victim \<Rightarrow> Victim list \<Rightarrow> Victim" where
  "top_from best [] = best"
| "top_from best (v # vs) = top_from (if soulSize best < soulSize v then v else best) vs"

definition emplace :: "Victim \<Rightarrow> Victim list \<Rightarrow> Victim list" where
  "emplace v q = q @ [v]"

section \<open>Configuration snapshot, host state and session data\<close>

datatype SoulShrinkingTechnique = Technique_None | Shrink | Split

record Snapshot =
  AllowSoulDiversion :: bool
  PerformSoulDiversionInDLL :: bool
  AllowNotifications :: bool
  AllowExtraSoulRelocation :: bool
  PreserveOwnership :: bool
  AllowSoulDisplacement :: bool
  AllowSoulRelocation :: bool
  AllowPartiallyFillingSoulGems :: bool
  AllowProfiling :: bool
  soulShrinkingTechnique :: SoulShrinkingTechnique

datatype InventoryStatus = HasSoulGemsToFill | NoSoulGemsOwned | AllSoulGemsFilled

datatype SoulTrapSuccessMessage = SoulCaptured | SoulDisplaced | SoulShrunk | SoulSplit

datatype SoulTrapFailureMessage =
  Message_AllSoulGemsFilled | Message_NoSoulGemsOwned
  | Message_NoSuitableSoulGem | Message_NoSoulGemLargeEnough

datatype Notification =
  Success SoulTrapSuccessMessage | Failure SoulTrapFailureMessage | TimeTakenToTrapSoul

datatype MutexEvent = Lock | Unlock

text \<open>
  An extra data list carries an owner and a stored soul level; an inventory entry is the
  owned count together with the entry's extra data lists. Only soul gems are kept in the
  modelled inventory (\<^verbatim>\<open>getInventoryFor\<close> filters with \<^verbatim>\<open>IsSoulGem\<close>).
\<close>

record ExtraDataList =
  GetOwner :: "nat option"
  GetSoulLevel :: nat

type_synonym InventoryEntryData = "ExtraDataList list"
type_synonym InventoryItemMap = "(TESSoulGem \<times> int \<times> InventoryEntryData) list"

record Actor =
  IsDead :: bool
  IsPlayerRef :: bool
  IsPlayerTeammate :: bool
  remainingSoulSize :: SoulSizeValue
  hasMiddleHigh :: bool
  unk325 :: bool
  inventory :: InventoryItemMap

text \<open>
  The host: the actors with their inventories, the player lookup
  (\<^verbatim>\<open>LookupByID<RE::Actor>(0x14)\<close>), the process-wide configuration and soul gem map, and
  the traces of what the code sends out: \<^verbatim>\<open>RE::DebugNotification\<close> calls,
  \<^verbatim>\<open>RE::SoulsTrapped::SendEvent\<close> calls, the operations on \<^verbatim>\<open>_trapSoulMutex\<close> and the
  victims announced by "Processing soul trap victim".
\<close>

record Host =
  actors :: "ActorRef \<Rightarrow> Actor"
  playerRef :: "ActorRef option"
  globalConfig :: Snapshot
  soulGemMap :: SoulGemMap
  notifications :: "Notification list"
  soulsTrappedEvents :: "(ActorRef \<times> ActorRef option) list"
  mutexLog :: "MutexEvent list"
  processedLog :: "Victim list"

record SoulTrapData =
  notifyCount :: nat
  isStatIncremented :: bool
  isInventoryMapDirty :: bool
  caster :: ActorRef
  casterInventoryStatus :: InventoryStatus
  inventoryMap :: InventoryItemMap
  victims :: "Victim list"
  victim :: "Victim option"
  config :: Snapshot
  host :: Host

abbreviation (input) MAX_NOTIFICATION_COUNT :: nat where "MAX_NOTIFICATION_COUNT \<equiv> 1"

subsection \<open>Host operations on an inventory\<close>

text \<open>
  \<^verbatim>\<open>AddObjectToContainer\<close> and \<^verbatim>\<open>RemoveItem\<close> of the host, for one unit of a soul gem.
  Adding raises the count of the kind (or lists it with count one) and attaches the extra
  data list given, if any. Removing lowers the count and detaches the extra data list
  given; the entry stays listed, which is why the search tests for a positive count.
  An inventory lists each kind once.
\<close>

definition extraLists_of :: "ExtraDataList option \<Rightarrow> ExtraDataList list" where
  "extraLists_of x = (case x of None \<Rightarrow> [] | Some e \<Rightarrow> [e])"

fun addObject :: "TESSoulGem \<Rightarrow> ExtraDataList option \<Rightarrow> InventoryItemMap \<Rightarrow> InventoryItemMap" where
  "addObject g x [] = [(g, 1, extraLists_of x)]"
| "addObject g x ((k, c, es) # rest) =
     (if k = g then (k, c + 1, es @ extraLists_of x) # rest
      else (k, c, es) # addObject g x rest)"

fun removeItem :: "TESSoulGem \<Rightarrow> ExtraDataList option \<Rightarrow> InventoryItemMap \<Rightarrow> InventoryItemMap" where
  "removeItem g x [] = []"
| "removeItem g x ((k, c, es) # rest) =
     (if k = g then (k, c - 1, (case x of None \<Rightarrow> es | Some e \<Rightarrow> remove1 e es)) # rest
      else (k, c, es) # removeItem g x rest)"

definition AddObjectToContainer ::
  "ActorRef \<Rightarrow> TESSoulGem \<Rightarrow> ExtraDataList option \<Rightarrow> Host \<Rightarrow> Host" where
  "AddObjectToContainer a g x h =
     h\<lparr>actors := (actors h)(a := (actors h a)\<lparr>inventory := addObject g x (inventory (actors h a))\<rparr>)\<rparr>"

definition RemoveItem ::
  "ActorRef \<Rightarrow> TESSoulGem \<Rightarrow> ExtraDataList option \<Rightarrow> Host \<Rightarrow> Host" where
  "RemoveItem a g x h =
     h\<lparr>actors := (actors h)(a := (actors h a)\<lparr>inventory := removeItem g x (inventory (actors h a))\<rparr>)\<rparr>"

definition getInventoryFor :: "Host \<Rightarrow> ActorRef \<Rightarrow> InventoryItemMap" where
  "getInventoryFor h a = inventory (actors h a)"

section \<open>Session bookkeeping (class \<^verbatim>\<open>_SoulTrapData\<close>)\<close>

definition notify :: "Notification \<Rightarrow> SoulTrapData \<Rightarrow> SoulTrapData" where
  "notify message d =
     (if notifyCount d < MAX_NOTIFICATION_COUNT \<and> AllowNotifications (config d)
      then d\<lparr>notifyCount := notifyCount d + 1,
             host := (host d)\<lparr>notifications := notifications (host d) @ [message]\<rparr>\<rparr>
      else d)"

definition incrementSoulsTrappedStat :: "ActorRef option \<Rightarrow> SoulTrapData \<Rightarrow> SoulTrapData" where
  "incrementSoulsTrappedStat v d =
     (if \<not> isStatIncremented d
      then d\<lparr>isStatIncremented := True,
             host := (host d)\<lparr>soulsTrappedEvents := soulsTrappedEvents (host d) @ [(caster d, v)]\<rparr>\<rparr>
      else d)"

definition resetInventoryData :: "SoulTrapData \<Rightarrow> SoulTrapData" where
  "resetInventoryData d =
     (let newMap = getInventoryFor (host d) (caster d);
          maxFilledSoulGemsCount =
            length (filter (\<lambda>(obj, entryData). GetMaximumCapacity obj = GetContainedSoul obj) newMap)
      in d\<lparr>inventoryMap := newMap,
            casterInventoryStatus :=
              (if length newMap \<le> 0 then NoSoulGemsOwned
               else if length newMap = maxFilledSoulGemsCount then AllSoulGemsFilled
               else HasSoulGemsToFill),
            isInventoryMapDirty := False\<rparr>)"

text \<open>
  The constructor. \<^verbatim>\<open>_casterInventoryStatus\<close> and \<^verbatim>\<open>_inventoryMap\<close> are only read after
  \<^verbatim>\<open>_resetInventoryData\<close> has run (the map starts dirty), so their initial values are not
  observable.
\<close>

definition SoulTrapData_new :: "ActorRef \<Rightarrow> Host \<Rightarrow> SoulTrapData" where
  "SoulTrapData_new c h =
     (let cfg = globalConfig h
      in \<lparr>notifyCount = 0, isStatIncremented = False, isInventoryMapDirty = True,
          caster =
            (if AllowSoulDiversion cfg \<and> PerformSoulDiversionInDLL cfg \<and>
                \<not> IsPlayerRef (actors h c) \<and> IsPlayerTeammate (actors h c)
             then (case playerRef h of Some playerActor \<Rightarrow> playerActor | None \<Rightarrow> c)
             else c),
          casterInventoryStatus = NoSoulGemsOwned, inventoryMap = [],
          victims = [], victim = None, config = cfg, host = h\<rparr>)"

definition setInventoryHasChanged :: "SoulTrapData \<Rightarrow> SoulTrapData" where
  "setInventoryHasChanged d = d\<lparr>isInventoryMapDirty := True\<rparr>"

text \<open>
  \<^verbatim>\<open>updateLoopVariables\<close> is only called on a non-empty queue (the loop guard); on an
  empty one the model leaves the session as it is.
\<close>

definition updateLoopVariables :: "SoulTrapData \<Rightarrow> SoulTrapData" where
  "updateLoopVariables d =
     (case victims d of
        [] \<Rightarrow> d
      | v # vs \<Rightarrow>
          (let t = top_from v vs;
               d1 = d\<lparr>victim := Some t, victims := remove1 t (victims d)\<rparr>
           in if isInventoryMapDirty d1 then resetInventoryData d1 else d1))"

text \<open>\<^verbatim>\<open>victim()\<close> is \<^verbatim>\<open>_victim.value()\<close>; it is read only after \<^verbatim>\<open>updateLoopVariables\<close>.\<close>

definition victim_value :: "SoulTrapData \<Rightarrow> Victim" where
  "victim_value d = the (victim d)"

definition notifySoulTrapFailure :: "SoulTrapFailureMessage \<Rightarrow> SoulTrapData \<Rightarrow> SoulTrapData" where
  "notifySoulTrapFailure message d =
     (if IsPlayerRef (actors (host d) (caster d)) then notify (Failure message) d else d)"

definition notifySoulTrapSuccess ::
  "SoulTrapSuccessMessage \<Rightarrow> Victim \<Rightarrow> SoulTrapData \<Rightarrow> SoulTrapData" where
  "notifySoulTrapSuccess message v d =
     (if IsPlayerRef (actors (host d) (caster d)) \<and> isPrimarySoul v
      then incrementSoulsTrappedStat (actor v) (notify (Success message) d)
      else d)"

section \<open>Searching the inventory and replacing a soul gem\<close>

record SearchResult =
  soulGem :: TESSoulGem
  itemCount :: int
  entryData :: InventoryEntryData

fun findFirstOwnedObjectInList ::
  "InventoryItemMap \<Rightarrow> TESSoulGem list \<Rightarrow> SearchResult option" where
  "findFirstOwnedObjectInList m [] = None"
| "findFirstOwnedObjectInList m (it # rest) =
     (case map_of m it of
        Some (n, e) \<Rightarrow>
          if n > 0 then Some \<lparr>soulGem = it, itemCount = n, entryData = e\<rparr>
          else findFirstOwnedObjectInList m rest
      | None \<Rightarrow> findFirstOwnedObjectInList m rest)"

definition getFirstExtraDataList :: "InventoryEntryData \<Rightarrow> ExtraDataList option" where
  "getFirstExtraDataList e = (case e of [] \<Rightarrow> None | x # xs \<Rightarrow> Some x)"

definition createExtraDataListFromOriginal :: "ExtraDataList option \<Rightarrow> ExtraDataList option" where
  "createExtraDataListFromOriginal originalExtraList =
     (case originalExtraList of
        None \<Rightarrow> None
      | Some x \<Rightarrow>
          (case GetOwner x of
             Some owner \<Rightarrow> Some \<lparr>GetOwner = Some owner, GetSoulLevel = 0\<rparr>
           | None \<Rightarrow> None))"

definition replaceSoulGem ::
  "TESSoulGem \<Rightarrow> TESSoulGem \<Rightarrow> InventoryEntryData \<Rightarrow> SoulTrapData \<Rightarrow> SoulTrapData" where
  "replaceSoulGem soulGemToAdd soulGemToRemove soulGemToRemoveEntryData d =
     (let oldExtraList =
            (if AllowExtraSoulRelocation (config d) \<or> PreserveOwnership (config d)
             then getFirstExtraDataList soulGemToRemoveEntryData else None);
          d1 =
            (case oldExtraList of
               None \<Rightarrow> d
             | Some x \<Rightarrow>
                 if AllowExtraSoulRelocation (config d) \<and> GetSoulLevel x \<noteq> 0
                 then d\<lparr>victims :=
                          emplace
                            (Victim_displaced
                               (if GetSoulLevel x = 5 \<and> canHoldBlackSoul soulGemToRemove
                                then SoulSize_Black else toSoulSize_level (GetSoulLevel x)))
                            (victims d)\<rparr>
                 else d);
          newExtraList =
            (if PreserveOwnership (config d) then createExtraDataListFromOriginal oldExtraList
             else None)
      in setInventoryHasChanged
           (d1\<lparr>host :=
                 RemoveItem (caster d1) soulGemToRemove oldExtraList
                   (AddObjectToContainer (caster d1) soulGemToAdd newExtraList (host d1))\<rparr>))"

definition fillSoulGem ::
  "TESSoulGem list \<Rightarrow> SoulSizeValue \<Rightarrow> SoulTrapData \<Rightarrow> bool \<times> SoulTrapData" where
  "fillSoulGem sourceSoulGems targetContainedSoulSize d =
     (case findFirstOwnedObjectInList (inventoryMap d) sourceSoulGems of
        Some firstOwned \<Rightarrow>
          (True,
           replaceSoulGem (soulGemAt (soulGem firstOwned) targetContainedSoulSize)
             (soulGem firstOwned) (entryData firstOwned) d)
      | None \<Rightarrow> (False, d))"

definition fillWhiteSoulGem ::
  "SoulGemCapacityValue \<Rightarrow> SoulSizeValue \<Rightarrow> SoulSizeValue \<Rightarrow> SoulTrapData \<Rightarrow> bool \<times> SoulTrapData" where
  "fillWhiteSoulGem capacity sourceContainedSoulSize targetContainedSoulSize d =
     fillSoulGem (getSoulGemsWith (soulGemMap (host d)) capacity sourceContainedSoulSize)
       targetContainedSoulSize d"

definition fillBlackSoulGem :: "SoulTrapData \<Rightarrow> bool \<times> SoulTrapData" where
  "fillBlackSoulGem d =
     fillSoulGem (getSoulGemsWith (soulGemMap (host d)) SoulGemCapacity_Black SoulSize_None)
       SoulSize_Black d"

definition tryReplaceBlackSoulInDualSoulGemWithWhiteSoul ::
  "SoulTrapData \<Rightarrow> bool \<times> SoulTrapData" where
  "tryReplaceBlackSoulInDualSoulGemWithWhiteSoul d =
     (case findFirstOwnedObjectInList (inventoryMap d)
             (getSoulGemsWith (soulGemMap (host d)) SoulGemCapacity_Dual SoulSize_Black) of
        None \<Rightarrow> (False, d)
      | Some firstOwned \<Rightarrow>
          (case fillBlackSoulGem d of
             (filled, d1) \<Rightarrow>
               if filled
               then (True,
                     replaceSoulGem (soulGemAt (soulGem firstOwned) (soulSize (victim_value d1)))
                       (soulGem firstOwned) (entryData firstOwned) d1)
               else (False, d1)))"

section \<open>The strategies\<close>

definition emplaceVictim :: "Victim \<Rightarrow> SoulTrapData \<Rightarrow> SoulTrapData" where
  "emplaceVictim v d = d\<lparr>victims := emplace v (victims d)\<rparr>"

subsection \<open>Black souls\<close>

function trapBlackSoul_loop ::
  "SoulSizeValue \<Rightarrow> SoulSizeValue \<Rightarrow> SoulTrapData \<Rightarrow> bool \<times> SoulTrapData" where
  "trapBlackSoul_loop containedSoulSize maxContainedSoulSizeToSearch d =
     (if containedSoulSize < maxContainedSoulSizeToSearch
      then (case fillSoulGem
                   (getSoulGemsWith (soulGemMap (host d)) SoulGemCapacity_Dual containedSoulSize)
                   (soulSize (victim_value d)) d of
              (result, d1) \<Rightarrow>
                if result
                then (if AllowSoulRelocation (config d1) \<and> containedSoulSize > SoulSize_None
                      then (True,
                            emplaceVictim (Victim_displaced containedSoulSize)
                              (notifySoulTrapSuccess SoulDisplaced (victim_value d1) d1))
                      else (True, notifySoulTrapSuccess SoulCaptured (victim_value d1) d1))
                else trapBlackSoul_loop (containedSoulSize + 1) maxContainedSoulSizeToSearch d1)
      else (False, d))"
  by pat_completeness auto
termination
  by (relation "measure (\<lambda>(e, mx, d). mx - e)") auto

declare trapBlackSoul_loop.simps [simp del]

definition trapBlackSoul :: "SoulTrapData \<Rightarrow> bool \<times> SoulTrapData" where
  "trapBlackSoul d =
     (case fillBlackSoulGem d of
        (isSoulTrapped, d1) \<Rightarrow>
          if isSoulTrapped
          then (True, notifySoulTrapSuccess SoulCaptured (victim_value d1) d1)
          else trapBlackSoul_loop SoulSize_None
                 (if AllowSoulDisplacement (config d1) then SoulSize_Black else SoulSize_Petty) d1)"

subsection \<open>Full white souls\<close>

text \<open>The inner and outer loop of the branch taken when relocation is enabled.\<close>

function trapFullSoul_relocation_inner ::
  "SoulGemCapacityValue \<Rightarrow> SoulSizeValue \<Rightarrow> SoulSizeValue \<Rightarrow> SoulTrapData \<Rightarrow> bool \<times> SoulTrapData" where
  "trapFullSoul_relocation_inner capacity containedSoulSize maxContainedSoulSizeToSearch d =
     (if containedSoulSize < maxContainedSoulSizeToSearch
      then (case fillSoulGem
                   (getSoulGemsWith (soulGemMap (host d)) capacity containedSoulSize)
                   (soulSize (victim_value d)) d of
              (result, d1) \<Rightarrow>
                if result
                then (if containedSoulSize > SoulSize_None
                      then (True,
                            emplaceVictim (Victim_displaced containedSoulSize)
                              (notifySoulTrapSuccess SoulDisplaced (victim_value d1) d1))
                      else (True, notifySoulTrapSuccess SoulCaptured (victim_value d1) d1))
                else trapFullSoul_relocation_inner capacity (containedSoulSize + 1)
                       maxContainedSoulSizeToSearch d1)
      else (False, d))"
  by pat_completeness auto
termination
  by (relation "measure (\<lambda>(c, e, mx, d). mx - e)") auto

declare trapFullSoul_relocation_inner.simps [simp del]

function trapFullSoul_relocation_outer ::
  "SoulGemCapacityValue \<Rightarrow> SoulGemCapacityValue \<Rightarrow> SoulSizeValue \<Rightarrow> SoulTrapData
     \<Rightarrow> bool \<times> SoulTrapData" where
  "trapFullSoul_relocation_outer capacity maxSoulCapacityToSearch maxContainedSoulSizeToSearch d =
     (if capacity \<le> maxSoulCapacityToSearch
      then (case trapFullSoul_relocation_inner capacity SoulSize_None
                   maxContainedSoulSizeToSearch d of
              (result, d1) \<Rightarrow>
                if result then (True, d1)
                else trapFullSoul_relocation_outer (capacity + 1) maxSoulCapacityToSearch
                       maxContainedSoulSizeToSearch d1)
      else (False, d))"
  by pat_completeness auto
termination
  by (relation "measure (\<lambda>(c, mc, mx, d). Suc mc - c)") auto

declare trapFullSoul_relocation_outer.simps [simp del]

text \<open>The inner and outer loop of the branch taken when relocation is disabled.\<close>

function trapFullSoul_norelocation_inner ::
  "SoulSizeValue \<Rightarrow> SoulGemCapacityValue \<Rightarrow> SoulGemCapacityValue \<Rightarrow> SoulTrapData
     \<Rightarrow> bool \<times> SoulTrapData" where
  "trapFullSoul_norelocation_inner containedSoulSize capacity maxSoulCapacityToSearch d =
     (if capacity \<le> maxSoulCapacityToSearch
      then (case fillWhiteSoulGem capacity containedSoulSize (soulSize (victim_value d)) d of
              (result, d1) \<Rightarrow>
                if result
                then (if containedSoulSize > SoulSize_None
                      then (True, notifySoulTrapSuccess SoulDisplaced (victim_value d1) d1)
                      else (True, notifySoulTrapSuccess SoulCaptured (victim_value d1) d1))
                else trapFullSoul_norelocation_inner containedSoulSize (capacity + 1)
                       maxSoulCapacityToSearch d1)
      else (False, d))"
  by pat_completeness auto
termination
  by (relation "measure (\<lambda>(e, c, mc, d). Suc mc - c)") auto

declare trapFullSoul_norelocation_inner.simps [simp del]

function trapFullSoul_norelocation_outer ::
  "SoulSizeValue \<Rightarrow> SoulSizeValue \<Rightarrow> SoulGemCapacityValue \<Rightarrow> SoulGemCapacityValue
     \<Rightarrow> SoulTrapData \<Rightarrow> bool \<times> SoulTrapData" where
  "trapFullSoul_norelocation_outer containedSoulSize maxContainedSoulSizeToSearch
       firstCapacity maxSoulCapacityToSearch d =
     (if containedSoulSize < maxContainedSoulSizeToSearch
      then (case trapFullSoul_norelocation_inner containedSoulSize firstCapacity
                   maxSoulCapacityToSearch d of
              (result, d1) \<Rightarrow>
                if result then (True, d1)
                else trapFullSoul_norelocation_outer (containedSoulSize + 1)
                       maxContainedSoulSizeToSearch firstCapacity maxSoulCapacityToSearch d1)
      else (False, d))"
  by pat_completeness auto
termination
  by (relation "measure (\<lambda>(e, mx, c, mc, d). mx - e)") auto

declare trapFullSoul_norelocation_outer.simps [simp del]

definition trapFullSoul :: "SoulTrapData \<Rightarrow> bool \<times> SoulTrapData" where
  "trapFullSoul d =
     (let maxSoulCapacityToSearch =
            (if AllowPartiallyFillingSoulGems (config d) then SoulGemCapacity_LastWhite
             else toSoulGemCapacity (soulSize (victim_value d)));
          maxContainedSoulSizeToSearch =
            (if AllowSoulDisplacement (config d) then soulSize (victim_value d)
             else SoulSize_Petty)
      in if AllowSoulRelocation (config d)
         then (case trapFullSoul_relocation_outer (toSoulGemCapacity (soulSize (victim_value d)))
                      maxSoulCapacityToSearch maxContainedSoulSizeToSearch d of
                 (found, d1) \<Rightarrow>
                   if found then (True, d1)
                   else if AllowSoulDisplacement (config d1) \<and>
                           (AllowPartiallyFillingSoulGems (config d1) \<or>
                            soulSize (victim_value d1) = SoulSize_Grand)
                   then (case tryReplaceBlackSoulInDualSoulGemWithWhiteSoul d1 of
                           (result, d2) \<Rightarrow>
                             if result
                             then (True, notifySoulTrapSuccess SoulDisplaced (victim_value d2) d2)
                             else (False, d2))
                   else (False, d1))
         else trapFullSoul_norelocation_outer SoulSize_None maxContainedSoulSizeToSearch
                (toSoulGemCapacity (soulSize (victim_value d))) maxSoulCapacityToSearch d)"

subsection \<open>Shrunk white souls\<close>

function trapShrunkSoul_inner ::
  "SoulGemCapacityValue \<Rightarrow> SoulSizeValue \<Rightarrow> SoulSizeValue \<Rightarrow> SoulTrapData \<Rightarrow> bool \<times> SoulTrapData" where
  "trapShrunkSoul_inner capacity containedSoulSize maxContainedSoulSizeToSearch d =
     (if containedSoulSize < maxContainedSoulSizeToSearch
      then (case fillSoulGem
                   (getSoulGemsWith (soulGemMap (host d)) capacity containedSoulSize)
                   (toSoulSize capacity) d of
              (isFillSuccessful, d1) \<Rightarrow>
                if isFillSuccessful
                then (let d2 = notifySoulTrapSuccess SoulShrunk (victim_value d1) d1
                      in if AllowSoulRelocation (config d2) \<and> containedSoulSize > SoulSize_None
                         then (True, emplaceVictim (Victim_displaced containedSoulSize) d2)
                         else (True, d2))
                else trapShrunkSoul_inner capacity (containedSoulSize + 1)
                       maxContainedSoulSizeToSearch d1)
      else (False, d))"
  by pat_completeness auto
termination
  by (relation "measure (\<lambda>(c, e, mx, d). mx - e)") auto

declare trapShrunkSoul_inner.simps [simp del]

text \<open>
  The outer loop counts the capacity down while it is at least
  \<^verbatim>\<open>SoulGemCapacity::First\<close>. The first parameter is the template argument
  \<^verbatim>\<open>AllowSoulDisplacement\<close>.
\<close>

function trapShrunkSoul_outer ::
  "bool \<Rightarrow> SoulGemCapacityValue \<Rightarrow> SoulTrapData \<Rightarrow> bool \<times> SoulTrapData" where
  "trapShrunkSoul_outer allowSoulDisplacement capacity d =
     (if capacity \<ge> SoulGemCapacity_First
      then (case trapShrunkSoul_inner capacity SoulSize_None
                   (if allowSoulDisplacement then toSoulSize capacity else SoulSize_Petty) d of
              (result, d1) \<Rightarrow>
                if result then (True, d1)
                else trapShrunkSoul_outer allowSoulDisplacement (capacity - 1) d1)
      else (False, d))"
  by pat_completeness auto
termination
  by (relation "measure (\<lambda>(a, c, d). c)") auto

declare trapShrunkSoul_outer.simps [simp del]

text \<open>
  The start value \<^verbatim>\<open>toSoulGemCapacity(d.victim().soulSize()) - 1\<close>: every soul in the
  queue has a size of at least Petty, so the subtraction does not pass below zero.
\<close>

definition trapShrunkSoul_template :: "bool \<Rightarrow> SoulTrapData \<Rightarrow> bool \<times> SoulTrapData" where
  "trapShrunkSoul_template allowSoulDisplacement d =
     trapShrunkSoul_outer allowSoulDisplacement
       (toSoulGemCapacity (soulSize (victim_value d)) - 1) d"

definition trapShrunkSoul :: "SoulTrapData \<Rightarrow> bool \<times> SoulTrapData" where
  "trapShrunkSoul d =
     (if AllowSoulDisplacement (config d) then trapShrunkSoul_template True d
      else trapShrunkSoul_template False d)"

subsection \<open>Split white souls\<close>

function trapSplitSoul_loop ::
  "SoulSizeValue \<Rightarrow> SoulSizeValue \<Rightarrow> SoulTrapData \<Rightarrow> bool \<times> SoulTrapData" where
  "trapSplitSoul_loop containedSoulSize maxContainedSoulSizeToSearch d =
     (if containedSoulSize < maxContainedSoulSizeToSearch
      then (case fillSoulGem
                   (getSoulGemsWith (soulGemMap (host d))
                      (toSoulGemCapacity (soulSize (victim_value d))) containedSoulSize)
                   (soulSize (victim_value d)) d of
              (result, d1) \<Rightarrow>
                if result
                then (let d2 = notifySoulTrapSuccess SoulSplit (victim_value d1) d1
                      in if AllowSoulRelocation (config d2) \<and> containedSoulSize > SoulSize_None
                         then (True, emplaceVictim (Victim_displaced containedSoulSize) d2)
                         else (True, d2))
                else trapSplitSoul_loop (containedSoulSize + 1) maxContainedSoulSizeToSearch d1)
      else (False, d))"
  by pat_completeness auto
termination
  by (relation "measure (\<lambda>(e, mx, d). mx - e)") auto

declare trapSplitSoul_loop.simps [simp del]

definition trapSplitSoul :: "SoulTrapData \<Rightarrow> bool \<times> SoulTrapData" where
  "trapSplitSoul d =
     trapSplitSoul_loop SoulSize_None
       (if AllowSoulDisplacement (config d) then soulSize (victim_value d) else SoulSize_Petty) d"

definition splitSoul :: "Victim \<Rightarrow> Victim list \<Rightarrow> Victim list" where
  "splitSoul v victimQueue =
     (if soulSize v = SoulSize_Grand
      then emplace (Victim_split (actor v) SoulSize_Common)
             (emplace (Victim_split (actor v) SoulSize_Greater) victimQueue)
      else if soulSize v = SoulSize_Greater
      then emplace (Victim_split (actor v) SoulSize_Common)
             (emplace (Victim_split (actor v) SoulSize_Common) victimQueue)
      else if soulSize v = SoulSize_Common
      then emplace (Victim_split (actor v) SoulSize_Lesser)
             (emplace (Victim_split (actor v) SoulSize_Lesser) victimQueue)
      else if soulSize v = SoulSize_Lesser
      then emplace (Victim_split (actor v) SoulSize_Petty)
             (emplace (Victim_split (actor v) SoulSize_Petty) victimQueue)
      else victimQueue)"

section \<open>The driver (\<^verbatim>\<open>trapSoul\<close>)\<close>

datatype LoopControl = Break | Continue

text \<open>
  One pass through the body of the \<^verbatim>\<open>while\<close> loop, on a non-empty queue. The result
  says whether the loop was left by \<^verbatim>\<open>break\<close>, and carries \<^verbatim>\<open>isSoulTrapSuccessful\<close>.
\<close>

text \<open>The trace line "Processing soul trap victim" at the head of the loop body.\<close>

definition logProcessing :: "SoulTrapData \<Rightarrow> SoulTrapData" where
  "logProcessing d =
     d\<lparr>host := (host d)\<lparr>processedLog := processedLog (host d) @ [victim_value d]\<rparr>\<rparr>"

definition trapSoul_body :: "bool \<Rightarrow> SoulTrapData \<Rightarrow> LoopControl \<times> bool \<times> SoulTrapData" where
  "trapSoul_body isSoulTrapSuccessful d0 =
     (let d = logProcessing (updateLoopVariables d0)
      in if casterInventoryStatus d \<noteq> HasSoulGemsToFill
         then (Break, isSoulTrapSuccessful, d)
         else if soulSize (victim_value d) = SoulSize_Black
         then (case trapBlackSoul d of
                 (r, d1) \<Rightarrow>
                   if r then (Continue, True, d1) else (Continue, isSoulTrapSuccessful, d1))
         else if isSplitSoul (victim_value d)
         then (case trapSplitSoul d of
                 (r, d1) \<Rightarrow>
                   if r then (Continue, True, d1)
                   else (Continue, isSoulTrapSuccessful,
                         d1\<lparr>victims := splitSoul (victim_value d1) (victims d1)\<rparr>))
         else (case trapFullSoul d of
                 (r, d1) \<Rightarrow>
                   if r then (Continue, True, d1)
                   else if soulShrinkingTechnique (config d1) = Shrink
                   then (case trapShrunkSoul d1 of
                           (r2, d2) \<Rightarrow>
                             if r2 then (Continue, True, d2)
                             else (Continue, isSoulTrapSuccessful, d2))
                   else if soulShrinkingTechnique (config d1) = Split
                   then (Continue, isSoulTrapSuccessful,
                         d1\<lparr>victims := splitSoul (victim_value d1) (victims d1)\<rparr>)
                   else (Continue, isSoulTrapSuccessful, d1)))"

text \<open>
  The \<^verbatim>\<open>while (!d.victims().empty())\<close> loop. The number of passes is not bounded by the
  text of the loop, so the model carries fuel: \<open>None\<close> means the fuel ran out before the
  loop ended.
\<close>

fun trapSoul_loop :: "nat \<Rightarrow> bool \<Rightarrow> SoulTrapData \<Rightarrow> (bool \<times> SoulTrapData) option" where
  "trapSoul_loop 0 isSoulTrapSuccessful d =
     (if victims d = [] then Some (isSoulTrapSuccessful, d) else None)"
| "trapSoul_loop (Suc fuel) isSoulTrapSuccessful d =
     (if victims d = [] then Some (isSoulTrapSuccessful, d)
      else (case trapSoul_body isSoulTrapSuccessful d of
              (Break, ok, d1) \<Rightarrow> Some (ok, d1)
            | (Continue, ok, d1) \<Rightarrow> trapSoul_loop fuel ok d1))"

text \<open>
  What follows the loop: flagging the victim on success, or the failure notification
  chosen by the inventory status.
\<close>

definition trapSoul_finish :: "ActorRef \<Rightarrow> bool \<Rightarrow> SoulTrapData \<Rightarrow> SoulTrapData" where
  "trapSoul_finish v isSoulTrapSuccessful d =
     (if isSoulTrapSuccessful
      then (if hasMiddleHigh (actors (host d) v)
            then d\<lparr>host := (host d)\<lparr>actors :=
                     (actors (host d))(v := (actors (host d) v)\<lparr>unk325 := True\<rparr>)\<rparr>\<rparr>
            else d)
      else (case casterInventoryStatus d of
              AllSoulGemsFilled \<Rightarrow> notifySoulTrapFailure Message_AllSoulGemsFilled d
            | NoSoulGemsOwned \<Rightarrow> notifySoulTrapFailure Message_NoSoulGemsOwned d
            | HasSoulGemsToFill \<Rightarrow>
                if soulShrinkingTechnique (config d) \<noteq> Technique_None
                then notifySoulTrapFailure Message_NoSuitableSoulGem d
                else notifySoulTrapFailure Message_NoSoulGemLargeEnough d))"

text \<open>
  The destructor of \<^verbatim>\<open>_TrapSoulWrapper\<close> runs on every way out of \<^verbatim>\<open>trapSoul\<close>; with
  profiling enabled in the global configuration it sends the time taken as a notification
  (the elapsed time itself is not modelled).
\<close>

definition TrapSoulWrapper_exit :: "Host \<Rightarrow> Host" where
  "TrapSoulWrapper_exit h =
     (if AllowProfiling (globalConfig h)
      then h\<lparr>notifications := notifications h @ [TimeTakenToTrapSoul]\<rparr>
      else h)"

definition lock_guard :: "Host \<Rightarrow> Host" where
  "lock_guard h = h\<lparr>mutexLog := mutexLog h @ [Lock]\<rparr>"

definition lock_guard_exit :: "Host \<Rightarrow> Host" where
  "lock_guard_exit h = h\<lparr>mutexLog := mutexLog h @ [Unlock]\<rparr>"

text \<open>
  Modelled from the spec: \<^verbatim>\<open>Victim(actor)\<close> and \<^verbatim>\<open>getRemainingSoulLevelValue\<close> are not
  among the sources; the victim is "already fully drained" when nothing of its
  soul remains, and the original victim enters the queue with its remaining soul size.
\<close>

definition Victim_actor :: "Host \<Rightarrow> ActorRef \<Rightarrow> Victim" where
  "Victim_actor h v =
     \<lparr>actor = Some v, soulSize = remainingSoulSize (actors h v), isSplitSoul = False\<rparr>"

definition getRemainingSoulLevelValue :: "Host \<Rightarrow> ActorRef \<Rightarrow> nat" where
  "getRemainingSoulLevelValue h v = min 5 (remainingSoulSize (actors h v))"

text \<open>
  The entry point. A null pointer is \<open>None\<close>. The result is \<open>None\<close> only when the fuel
  given to the loop ran out. No call of the collaborators is taken to throw, so the
  \<^verbatim>\<open>catch\<close> branch has no counterpart.
\<close>

definition trapSoul ::
  "nat \<Rightarrow> ActorRef option \<Rightarrow> ActorRef option \<Rightarrow> Host \<Rightarrow> (bool \<times> Host) option" where
  "trapSoul fuel casterPtr victimPtr h =
     (case casterPtr of
        None \<Rightarrow> Some (False, TrapSoulWrapper_exit h)
      | Some c \<Rightarrow>
     (case victimPtr of
        None \<Rightarrow> Some (False, TrapSoulWrapper_exit h)
      | Some v \<Rightarrow>
          if IsDead (actors h c) then Some (False, TrapSoulWrapper_exit h)
          else if \<not> IsDead (actors h v) then Some (False, TrapSoulWrapper_exit h)
          else (let h1 = lock_guard h
                in if getRemainingSoulLevelValue h1 v = 0
                   then Some (False, TrapSoulWrapper_exit (lock_guard_exit h1))
                   else (case trapSoul_loop fuel False
                                (emplaceVictim (Victim_actor h1 v) (SoulTrapData_new c h1)) of
                           None \<Rightarrow> None
                         | Some (isSoulTrapSuccessful, d) \<Rightarrow>
                             Some (isSoulTrapSuccessful,
                                   TrapSoulWrapper_exit
                                     (lock_guard_exit
                                        (host (trapSoul_finish v isSoulTrapSuccessful d))))))))"

section \<open>Notions used to state the properties\<close>

text \<open>A kind is owned when the inventory snapshot lists it with a positive count.\<close>

definition owned :: "InventoryItemMap \<Rightarrow> TESSoulGem \<Rightarrow> bool" where
  "owned m g = (case map_of m g of Some (n, e) \<Rightarrow> 0 < n | None \<Rightarrow> False)"

text \<open>The count an inventory lists for a kind; zero when the kind is not listed.\<close>

definition countOf :: "InventoryItemMap \<Rightarrow> TESSoulGem \<Rightarrow> int" where
  "countOf m k = (case map_of m k of Some (n, e) \<Rightarrow> n | None \<Rightarrow> 0)"

text \<open>Some kind of the given capacity and contained soul size is owned.\<close>

definition ownsGemWith :: "SoulTrapData \<Rightarrow> SoulGemCapacityValue \<Rightarrow> SoulSizeValue \<Rightarrow> bool" where
  "ownsGemWith d c e =
     list_ex (owned (inventoryMap d)) (getSoulGemsWith (soulGemMap (host d)) c e)"

definition ownsPair :: "SoulTrapData \<Rightarrow> SoulGemCapacityValue \<times> SoulSizeValue \<Rightarrow> bool" where
  "ownsPair d p = ownsGemWith d (fst p) (snd p)"

subsection \<open>The session after a successful search step\<close>

text \<open>
  \<open>filled c e t d\<close> is the session after \<^verbatim>\<open>_fillSoulGem\<close> has been called on the kinds of
  capacity \<open>c\<close> and contained soul size \<open>e\<close> with target size \<open>t\<close>. The \<open>placed\<close> functions
  are the success branches of the search loops: the fill followed by the notification and
  the re-queueing the loop performs before it returns true.
\<close>

definition filled ::
  "SoulGemCapacityValue \<Rightarrow> SoulSizeValue \<Rightarrow> SoulSizeValue \<Rightarrow> SoulTrapData \<Rightarrow> SoulTrapData" where
  "filled c e t d = snd (fillSoulGem (getSoulGemsWith (soulGemMap (host d)) c e) t d)"

definition placed_black :: "SoulSizeValue \<Rightarrow> SoulTrapData \<Rightarrow> SoulTrapData" where
  "placed_black e d =
     (let d1 = filled SoulGemCapacity_Dual e (soulSize (victim_value d)) d
      in if AllowSoulRelocation (config d1) \<and> e > SoulSize_None
         then emplaceVictim (Victim_displaced e)
                (notifySoulTrapSuccess SoulDisplaced (victim_value d1) d1)
         else notifySoulTrapSuccess SoulCaptured (victim_value d1) d1)"

definition placed_full ::
  "SoulGemCapacityValue \<Rightarrow> SoulSizeValue \<Rightarrow> SoulTrapData \<Rightarrow> SoulTrapData" where
  "placed_full c e d =
     (let d1 = filled c e (soulSize (victim_value d)) d
      in if e > SoulSize_None
         then emplaceVictim (Victim_displaced e)
                (notifySoulTrapSuccess SoulDisplaced (victim_value d1) d1)
         else notifySoulTrapSuccess SoulCaptured (victim_value d1) d1)"

definition placed_full_norelocation ::
  "SoulGemCapacityValue \<Rightarrow> SoulSizeValue \<Rightarrow> SoulTrapData \<Rightarrow> SoulTrapData" where
  "placed_full_norelocation c e d =
     (let d1 = filled c e (soulSize (victim_value d)) d
      in if e > SoulSize_None
         then notifySoulTrapSuccess SoulDisplaced (victim_value d1) d1
         else notifySoulTrapSuccess SoulCaptured (victim_value d1) d1)"

definition placed_shrunk ::
  "SoulGemCapacityValue \<Rightarrow> SoulSizeValue \<Rightarrow> SoulTrapData \<Rightarrow> SoulTrapData" where
  "placed_shrunk c e d =
     (let d1 = filled c e (toSoulSize c) d;
          d2 = notifySoulTrapSuccess SoulShrunk (victim_value d1) d1
      in if AllowSoulRelocation (config d2) \<and> e > SoulSize_None
         then emplaceVictim (Victim_displaced e) d2
         else d2)"

definition placed_split :: "SoulSizeValue \<Rightarrow> SoulTrapData \<Rightarrow> SoulTrapData" where
  "placed_split e d =
     (let d1 = filled (toSoulGemCapacity (soulSize (victim_value d))) e
                 (soulSize (victim_value d)) d;
          d2 = notifySoulTrapSuccess SoulSplit (victim_value d1) d1
      in if AllowSoulRelocation (config d2) \<and> e > SoulSize_None
         then emplaceVictim (Victim_displaced e) d2
         else d2)"

text \<open>
  The success branch of \<^verbatim>\<open>_tryReplaceBlackSoulInDualSoulGemWithWhiteSoul\<close>: the black soul
  goes into an empty black gem, then the dual gem found before is refilled with the
  white soul.
\<close>

definition placed_white_in_dual :: "SoulTrapData \<Rightarrow> SoulTrapData" where
  "placed_white_in_dual d =
     (let firstOwned =
            the (findFirstOwnedObjectInList (inventoryMap d)
                   (getSoulGemsWith (soulGemMap (host d)) SoulGemCapacity_Dual SoulSize_Black));
          d1 = filled SoulGemCapacity_Black SoulSize_None SoulSize_Black d
      in replaceSoulGem (soulGemAt (soulGem firstOwned) (soulSize (victim_value d1)))
           (soulGem firstOwned) (entryData firstOwned) d1)"

subsection \<open>Search bounds and search orders\<close>

text \<open>The bounds the full-soul search computes before its loops.\<close>

definition maxSoulCapacityToSearch :: "SoulTrapData \<Rightarrow> SoulGemCapacityValue" where
  "maxSoulCapacityToSearch d =
     (if AllowPartiallyFillingSoulGems (config d) then SoulGemCapacity_LastWhite
      else toSoulGemCapacity (soulSize (victim_value d)))"

definition maxContainedSoulSizeToSearch :: "SoulTrapData \<Rightarrow> SoulSizeValue" where
  "maxContainedSoulSizeToSearch d =
     (if AllowSoulDisplacement (config d) then soulSize (victim_value d) else SoulSize_Petty)"

text \<open>
  The (capacity, contained soul size) pairs in the order in which a nested search visits
  them: capacities \<open>cs\<close> in the given order, and for each capacity \<open>c\<close> the contained sizes
  from empty up to, but not including, \<open>bound c\<close>.
\<close>

definition tiers_then_contained ::
  "SoulGemCapacityValue list \<Rightarrow> (SoulGemCapacityValue \<Rightarrow> SoulSizeValue)
     \<Rightarrow> (SoulGemCapacityValue \<times> SoulSizeValue) list" where
  "tiers_then_contained cs bound = concat (map (\<lambda>c. map (Pair c) [0..<bound c]) cs)"

text \<open>
  The order of the search without relocation: contained sizes ascending, and for each
  the capacities ascending.
\<close>

definition contained_then_tiers ::
  "SoulSizeValue list \<Rightarrow> SoulGemCapacityValue list
     \<Rightarrow> (SoulGemCapacityValue \<times> SoulSizeValue) list" where
  "contained_then_tiers es cs = concat (map (\<lambda>e. map (\<lambda>c. (c, e)) cs) es)"

subsection \<open>Properties kept by the strategies and by the loop\<close>

text \<open>
  A property of the session is kept by the strategies when it is kept by the three ways
  in which they change the session: replacing a soul gem, a success notification, and
  adding a victim to the queue.
\<close>

definition preserves :: "(SoulTrapData \<Rightarrow> bool) \<Rightarrow> bool" where
  "preserves P =
     (\<forall>d. P d \<longrightarrow>
        (\<forall>a r e. P (replaceSoulGem a r e d)) \<and>
        (\<forall>m v. P (notifySoulTrapSuccess m v d)) \<and>
        (\<forall>v. P (emplaceVictim v d)))"

text \<open>
  A property is kept by the loop when it is kept by the strategies and by what the loop
  body itself does to the session: taking the next victim, announcing it, and replacing
  the queue by the one with the split souls.
\<close>

definition preserves_loop :: "(SoulTrapData \<Rightarrow> bool) \<Rightarrow> bool" where
  "preserves_loop P =
     (preserves P \<and>
      (\<forall>d. P d \<longrightarrow> P (updateLoopVariables d) \<and> P (logProcessing d) \<and>
                 (\<forall>q. P (d\<lparr>victims := q\<rparr>))))"

text \<open>
  The session acts on one actor only: the effective caster is \<open>c0\<close>, every other actor is
  as given by \<open>A\<close>, and a snapshot that is not dirty is the inventory of \<open>c0\<close>.
\<close>

definition acts_on :: "ActorRef \<Rightarrow> (ActorRef \<Rightarrow> Actor) \<Rightarrow> SoulTrapData \<Rightarrow> bool" where
  "acts_on c0 A d \<longleftrightarrow>
     caster d = c0 \<and> (\<forall>a. a \<noteq> c0 \<longrightarrow> actors (host d) a = A a) \<and>
     (isInventoryMapDirty d \<or> inventoryMap d = getInventoryFor (host d) c0)"

text \<open>
  The latches: relative to the notifications \<open>N0\<close> and statistics events \<open>E0\<close> present when
  the session began, the session has sent as many notifications as \<open>notifyCount\<close> says, at
  most one, none of them the profiling message, and one statistics event exactly when
  \<open>isStatIncremented\<close> is set.
\<close>

definition latched :: "Notification list \<Rightarrow> (ActorRef \<times> ActorRef option) list \<Rightarrow> SoulTrapData \<Rightarrow> bool" where
  "latched N0 E0 d \<longleftrightarrow>
     (\<exists>new ev. notifications (host d) = N0 @ new \<and> length new = notifyCount d \<and>
        notifyCount d \<le> MAX_NOTIFICATION_COUNT \<and> TimeTakenToTrapSoul \<notin> set new \<and>
        soulsTrappedEvents (host d) = E0 @ ev \<and>
        length ev = (if isStatIncremented d then 1 else 0))"

subsection \<open>The queue when nothing can be placed\<close>

text \<open>
  The victims the loop takes from the queue, in order, when every soul it takes is split
  and nothing else is ever added: the course of the loop under the Split technique when
  no gem can take a white soul. \<open>None\<close> means the fuel ran out first.
\<close>

fun split_run :: "nat \<Rightarrow> Victim list \<Rightarrow> Victim list option" where
  "split_run fuel [] = Some []"
| "split_run 0 (x # xs) = None"
| "split_run (Suc fuel) (x # xs) =
     (let t = top_from x xs
      in map_option ((#) t) (split_run fuel (splitSoul t (remove1 t (x # xs)))))"

text \<open>
  The caster owns soul gems that are not all full, so the loop does not stop early, but
  none that the soul gem map lists under a capacity other than Black; the technique is
  Split; and a snapshot that is not dirty agrees with the inventory.
\<close>

definition nothing_placeable :: "SoulTrapData \<Rightarrow> bool" where
  "nothing_placeable d \<longleftrightarrow>
     soulShrinkingTechnique (config d) = Split \<and>
     getInventoryFor (host d) (caster d) \<noteq> [] \<and>
     length (getInventoryFor (host d) (caster d)) \<noteq>
       length (filter (\<lambda>(obj, ed). GetMaximumCapacity obj = GetContainedSoul obj)
                 (getInventoryFor (host d) (caster d))) \<and>
     (\<forall>c e. c \<noteq> SoulGemCapacity_Black \<longrightarrow>
        \<not> list_ex (owned (getInventoryFor (host d) (caster d)))
             (getSoulGemsWith (soulGemMap (host d)) c e)) \<and>
     (\<not> isInventoryMapDirty d \<longrightarrow>
        inventoryMap d = getInventoryFor (host d) (caster d) \<and>
        casterInventoryStatus d = HasSoulGemsToFill)"

subsection \<open>What a caller observes of a finished call\<close>

definition returned :: "(bool \<times> Host) option \<Rightarrow> bool option" where
  "returned r = map_option fst r"

definition inventoryAfter :: "ActorRef \<Rightarrow> (bool \<times> Host) option \<Rightarrow> InventoryItemMap option" where
  "inventoryAfter a r = map_option (\<lambda>x. inventory (actors (snd x) a)) r"

definition processedSizes :: "(bool \<times> Host) option \<Rightarrow> SoulSizeValue list option" where
  "processedSizes r = map_option (\<lambda>x. map soulSize (processedLog (snd x))) r"

definition notificationsAfter :: "(bool \<times> Host) option \<Rightarrow> Notification list option" where
  "notificationsAfter r = map_option (\<lambda>x. notifications (snd x)) r"

definition pettyCount :: "(bool \<times> Host) option \<Rightarrow> nat option" where
  "pettyCount r =
     map_option (\<lambda>x. length (filter (\<lambda>v. soulSize v = SoulSize_Petty) (processedLog (snd x)))) r"

subsection \<open>Concrete hosts for the examples\<close>

definition example_config :: Snapshot where
  "example_config =
     \<lparr>AllowSoulDiversion = False, PerformSoulDiversionInDLL = False,
      AllowNotifications = True, AllowExtraSoulRelocation = False, PreserveOwnership = False,
      AllowSoulDisplacement = False, AllowSoulRelocation = False,
      AllowPartiallyFillingSoulGems = False, AllowProfiling = False,
      soulShrinkingTechnique = Technique_None\<rparr>"

text \<open>One group per capacity tier: group \<open>i\<close> has capacity \<open>i + 1\<close>.\<close>

definition example_soulGemMap :: SoulGemMap where
  "example_soulGemMap = [(0, 1), (1, 2), (2, 3), (3, 4), (4, 5), (5, 6), (6, 7)]"

definition example_actor :: "bool \<Rightarrow> bool \<Rightarrow> SoulSizeValue \<Rightarrow> InventoryItemMap \<Rightarrow> Actor" where
  "example_actor dead player s gems =
     \<lparr>IsDead = dead, IsPlayerRef = player, IsPlayerTeammate = False,
      remainingSoulSize = s, hasMiddleHigh = True, unk325 = False, inventory = gems\<rparr>"

text \<open>
  Actor 0 is the living player and owns the given gems; every other actor is dead, owns
  nothing and carries a soul of the given size.
\<close>

definition example_host :: "Snapshot \<Rightarrow> SoulSizeValue \<Rightarrow> InventoryItemMap \<Rightarrow> Host" where
  "example_host cfg s gems =
     \<lparr>actors = (\<lambda>a. if a = 0 then example_actor False True 0 gems
                     else example_actor True False s []),
      playerRef = Some 0, globalConfig = cfg, soulGemMap = example_soulGemMap,
      notifications = [], soulsTrappedEvents = [], mutexLog = [], processedLog = []\<rparr>"

text \<open>The session of the player on an example host, after the first inventory scan.\<close>

definition example_session :: "Snapshot \<Rightarrow> SoulSizeValue \<Rightarrow> InventoryItemMap \<Rightarrow> SoulTrapData" where
  "example_session cfg s gems =
     updateLoopVariables
       (emplaceVictim (Victim_actor (example_host cfg s gems) 1)
          (SoulTrapData_new 0 (example_host cfg s gems)))"

definition shrink_config :: Snapshot where
  "shrink_config =
     example_config\<lparr>AllowSoulDisplacement := True, AllowSoulRelocation := True,
                    soulShrinkingTechnique := Shrink\<rparr>"

definition bestfit_config :: Snapshot where
  "bestfit_config =
     example_config\<lparr>AllowSoulDisplacement := True, AllowSoulRelocation := True,
                    AllowPartiallyFillingSoulGems := True\<rparr>"

definition split_config :: Snapshot where
  "split_config = example_config\<lparr>soulShrinkingTechnique := Split\<rparr>"

definition dual_only_host :: "bool \<Rightarrow> Host" where
  "dual_only_host displacement =
     example_host (example_config\<lparr>AllowSoulDisplacement := displacement\<rparr>) SoulSize_Black
       [(TESSoulGem 5 SoulGemCapacity_Dual SoulSize_None, 1, [])]"

text \<open>
  A session of the player who owns one empty black gem, with the given queue, after the
  inventory has been scanned.
\<close>

definition black_gem_session :: "Victim list \<Rightarrow> SoulTrapData" where
  "black_gem_session q =
     (example_session split_config SoulSize_Grand
        [(TESSoulGem 6 SoulGemCapacity_Black SoulSize_None, 1, [])])\<lparr>victims := q\<rparr>"

definition black_gem_host :: Host where
  "black_gem_host =
     example_host split_config SoulSize_Grand
       [(TESSoulGem 6 SoulGemCapacity_Black SoulSize_None, 1, [])]"

text \<open>
  A host with soul diversion enabled: actor 0 is the player, actor 2 a living teammate of
  the player, every other actor is dead and carries a Common soul. The player and the
  teammate each own one empty Common gem.
\<close>

definition diversion_host :: Host where
  "diversion_host =
     \<lparr>actors = (\<lambda>a. if a = 0 then example_actor False True 0 [(TESSoulGem 2 3 0, 1, [])]
                     else if a = 2
                     then (example_actor False False 0 [(TESSoulGem 2 3 0, 1, [])])
                            \<lparr>IsPlayerTeammate := True\<rparr>
                     else example_actor True False SoulSize_Common []),
      playerRef = Some 0,
      globalConfig = example_config\<lparr>AllowSoulDiversion := True,
                                    PerformSoulDiversionInDLL := True\<rparr>,
      soulGemMap = example_soulGemMap,
      notifications = [], soulsTrappedEvents = [], mutexLog = [], processedLog = []\<rparr>"

definition profiling_host :: Host where
  "profiling_host =
     example_host (example_config\<lparr>AllowProfiling := True\<rparr>) SoulSize_Common
       [(TESSoulGem 2 3 0, 1, [])]"

lemmas example_defs =
  example_config_def example_soulGemMap_def example_actor_def example_host_def
  example_session_def

lemmas session_defs =
  updateLoopVariables_def emplaceVictim_def emplace_def Victim_actor_def
  SoulTrapData_new_def resetInventoryData_def getInventoryFor_def GetMaximumCapacity_def
  GetContainedSoul_def Let_def

section \<open>The fill primitive\<close>

lemma findFirstOwnedObjectInList_None:
  "(findFirstOwnedObjectInList m src = None) = (\<forall>g\<in>set src. \<not> owned m g)"
  by (induction src) (auto simp: owned_def split: option.splits)

lemma findFirstOwnedObjectInList_Some:
  "findFirstOwnedObjectInList m src = Some r \<Longrightarrow>
     \<exists>pre post. src = pre @ soulGem r # post \<and> (\<forall>x\<in>set pre. \<not> owned m x) \<and>
       map_of m (soulGem r) = Some (itemCount r, entryData r) \<and> 0 < itemCount r"
proof (induction src)
  case Nil
  then show ?case by simp
next
  case (Cons g src)
  show ?case
  proof (cases "owned m g")
    case True
    then obtain n e where ne: "map_of m g = Some (n, e)" "0 < n"
      by (auto simp: owned_def split: option.splits)
    with Cons.prems have "r = \<lparr>soulGem = g, itemCount = n, entryData = e\<rparr>"
      by simp
    with ne have "g # src = [] @ soulGem r # src \<and> (\<forall>x\<in>set []. \<not> owned m x) \<and>
        map_of m (soulGem r) = Some (itemCount r, entryData r) \<and> 0 < itemCount r"
      by simp
    then show ?thesis by blast
  next
    case False
    with Cons.prems have "findFirstOwnedObjectInList m src = Some r"
      by (auto simp: owned_def split: option.splits if_splits)
    from Cons.IH[OF this] obtain pre post where
      "src = pre @ soulGem r # post" "\<forall>x\<in>set pre. \<not> owned m x"
      "map_of m (soulGem r) = Some (itemCount r, entryData r)" "0 < itemCount r"
      by blast
    with False have "g # src = (g # pre) @ soulGem r # post \<and>
        (\<forall>x\<in>set (g # pre). \<not> owned m x) \<and>
        map_of m (soulGem r) = Some (itemCount r, entryData r) \<and> 0 < itemCount r"
      by simp
    then show ?thesis by blast
  qed
qed

lemma fillSoulGem_fails:
  "(\<not> fst (fillSoulGem src t d)) = (\<forall>g\<in>set src. \<not> owned (inventoryMap d) g)"
  using findFirstOwnedObjectInList_None[of "inventoryMap d" src]
  by (auto simp: fillSoulGem_def split: option.splits)

lemma fillSoulGem_False: "fillSoulGem src t d = (False, d') \<Longrightarrow> d' = d"
  by (auto simp: fillSoulGem_def split: option.splits)

lemma fillSoulGem_ownsGemWith:
  "fst (fillSoulGem (getSoulGemsWith (soulGemMap (host d)) c e) t d) = ownsGemWith d c e"
  using fillSoulGem_fails[of "getSoulGemsWith (soulGemMap (host d)) c e" t d]
  by (auto simp: ownsGemWith_def list_ex_iff)

lemma map_of_addObject:
  "map_of (addObject g x m) k =
     (if k = g
      then (case map_of m g of
              Some (n, es) \<Rightarrow> Some (n + 1, es @ extraLists_of x)
            | None \<Rightarrow> Some (1, extraLists_of x))
      else map_of m k)"
  by (induction m) (auto split: option.splits)

lemma map_of_removeItem:
  "map_of (removeItem g x m) k =
     (if k = g
      then map_option (\<lambda>(n, es). (n - 1, (case x of None \<Rightarrow> es | Some y \<Rightarrow> remove1 y es)))
             (map_of m g)
      else map_of m k)"
  by (induction m) (auto split: option.splits)

lemma countOf_addObject:
  "countOf (addObject g x m) k = countOf m k + (if k = g then 1 else 0)"
  by (simp add: countOf_def map_of_addObject split: option.splits)

lemma countOf_removeItem:
  "countOf (removeItem g x m) k =
     countOf m k - (if k = g \<and> map_of m g \<noteq> None then 1 else 0)"
  by (auto simp add: countOf_def map_of_removeItem split: option.splits)

lemma replaceSoulGem_effect:
  "isInventoryMapDirty (replaceSoulGem a g e d)"
  "caster (replaceSoulGem a g e d) = caster d"
  "b \<noteq> caster d \<Longrightarrow> actors (host (replaceSoulGem a g e d)) b = actors (host d) b"
  "inventory (actors (host (replaceSoulGem a g e d)) (caster d)) =
     removeItem g
       (if AllowExtraSoulRelocation (config d) \<or> PreserveOwnership (config d)
        then getFirstExtraDataList e else None)
       (addObject a
          (if PreserveOwnership (config d)
           then createExtraDataListFromOriginal
                  (if AllowExtraSoulRelocation (config d) \<or> PreserveOwnership (config d)
                   then getFirstExtraDataList e else None)
           else None)
          (inventory (actors (host d) (caster d))))"
  "victims (replaceSoulGem a g e d) =
     (case getFirstExtraDataList e of
        Some x \<Rightarrow>
          if AllowExtraSoulRelocation (config d) \<and> GetSoulLevel x \<noteq> 0
          then victims d @
                 [Victim_displaced
                    (if GetSoulLevel x = 5 \<and> canHoldBlackSoul g then SoulSize_Black
                     else toSoulSize_level (GetSoulLevel x))]
          else victims d
      | None \<Rightarrow> victims d)"
  by (auto simp: replaceSoulGem_def setInventoryHasChanged_def AddObjectToContainer_def
      RemoveItem_def emplace_def Let_def split: option.splits)

lemma replaceSoulGem_count:
  "countOf (inventory (actors (host (replaceSoulGem a g e d)) (caster d))) k =
     countOf (inventory (actors (host d) (caster d))) k
       + (if k = a then 1 else 0)
       - (if k = g \<and> (g = a \<or> map_of (inventory (actors (host d) (caster d))) g \<noteq> None)
          then 1 else 0)"
  unfolding replaceSoulGem_effect(4) countOf_removeItem countOf_addObject
  by (auto simp: map_of_addObject split: option.splits)


text \<open>
  C6. The fill primitive succeeds exactly when some candidate kind is owned in a positive
  quantity. When it fails the session is returned as it was: no inventory change, no
  queue insertion, and the snapshot is not marked dirty. When it succeeds, the kind \<open>g\<close>
  it acts on is the first owned one in the order of the candidates: every candidate
  before it is not owned. The session returned is the replacement of \<open>g\<close> by the kind of
  the same group and capacity with the target contained size, and that replacement is
  spelled out: the snapshot is marked dirty; no actor other than the caster changes; the
  caster's inventory is the old one with one unit of the new kind added (with the new
  extra data list) and then one unit of \<open>g\<close> removed (with the old extra data list), so
  the count of the new kind rises by one and the count of \<open>g\<close> falls by one where \<open>g\<close> is
  listed; and the queue is the old one, followed by the extra soul of the removed gem
  when relocation of extra souls is enabled and the gem's first extra data list stores
  a soul.
\<close>

theorem fillSoulGem_first_owned:
  "(fst (fillSoulGem src t d) \<longleftrightarrow> (\<exists>g\<in>set src. owned (inventoryMap d) g)) \<and>
   (\<not> fst (fillSoulGem src t d) \<longrightarrow> snd (fillSoulGem src t d) = d) \<and>
   (fst (fillSoulGem src t d) \<longrightarrow>
      (\<exists>pre g post n e. src = pre @ g # post \<and> (\<forall>x\<in>set pre. \<not> owned (inventoryMap d) x) \<and>
         map_of (inventoryMap d) g = Some (n, e) \<and> 0 < n \<and>
         snd (fillSoulGem src t d) = replaceSoulGem (soulGemAt g t) g e d \<and>
         soulGemAt g t = TESSoulGem (gemGroup g) (gemCapacity g) t \<and>
         isInventoryMapDirty (snd (fillSoulGem src t d)) \<and>
         caster (snd (fillSoulGem src t d)) = caster d \<and>
         (\<forall>a. a \<noteq> caster d \<longrightarrow>
              actors (host (snd (fillSoulGem src t d))) a = actors (host d) a) \<and>
         inventory (actors (host (snd (fillSoulGem src t d))) (caster d)) =
           removeItem g
             (if AllowExtraSoulRelocation (config d) \<or> PreserveOwnership (config d)
              then getFirstExtraDataList e else None)
             (addObject (soulGemAt g t)
                (if PreserveOwnership (config d)
                 then createExtraDataListFromOriginal
                        (if AllowExtraSoulRelocation (config d) \<or> PreserveOwnership (config d)
                         then getFirstExtraDataList e else None)
                 else None)
                (inventory (actors (host d) (caster d)))) \<and>
         (\<forall>k. countOf (inventory (actors (host (snd (fillSoulGem src t d))) (caster d))) k =
              countOf (inventory (actors (host d) (caster d))) k
                + (if k = soulGemAt g t then 1 else 0)
                - (if k = g \<and> (g = soulGemAt g t \<or>
                                 map_of (inventory (actors (host d) (caster d))) g \<noteq> None)
                   then 1 else 0)) \<and>
         victims (snd (fillSoulGem src t d)) =
           (case getFirstExtraDataList e of
              Some x \<Rightarrow>
                if AllowExtraSoulRelocation (config d) \<and> GetSoulLevel x \<noteq> 0
                then victims d @
                       [Victim_displaced
                          (if GetSoulLevel x = 5 \<and> canHoldBlackSoul g then SoulSize_Black
                           else toSoulSize_level (GetSoulLevel x))]
                else victims d
            | None \<Rightarrow> victims d)))"
proof (rule conjI; (rule conjI)?; (rule impI)?)
  show "fst (fillSoulGem src t d) \<longleftrightarrow> (\<exists>g\<in>set src. owned (inventoryMap d) g)"
    using fillSoulGem_fails[of src t d] by blast
next
  assume "\<not> fst (fillSoulGem src t d)"
  then show "snd (fillSoulGem src t d) = d"
    by (auto simp: fillSoulGem_def split: option.splits)
next
  assume ok: "fst (fillSoulGem src t d)"
  then obtain r where r: "findFirstOwnedObjectInList (inventoryMap d) src = Some r"
    by (auto simp: fillSoulGem_def split: option.splits)
  from findFirstOwnedObjectInList_Some[OF r] obtain pre post where first:
    "src = pre @ soulGem r # post" "\<forall>x\<in>set pre. \<not> owned (inventoryMap d) x"
    "map_of (inventoryMap d) (soulGem r) = Some (itemCount r, entryData r)" "0 < itemCount r"
    by blast
  have eq: "snd (fillSoulGem src t d) =
      replaceSoulGem (soulGemAt (soulGem r) t) (soulGem r) (entryData r) d"
    using r by (simp add: fillSoulGem_def)
  have kind: "soulGemAt (soulGem r) t = TESSoulGem (gemGroup (soulGem r)) (gemCapacity (soulGem r)) t"
    by (simp add: soulGemAt_def)
  have frame: "\<forall>a. a \<noteq> caster d \<longrightarrow>
      actors (host (snd (fillSoulGem src t d))) a = actors (host d) a"
    by (simp add: eq replaceSoulGem_effect(3))
  have count: "\<forall>k. countOf (inventory (actors (host (snd (fillSoulGem src t d))) (caster d))) k =
      countOf (inventory (actors (host d) (caster d))) k
        + (if k = soulGemAt (soulGem r) t then 1 else 0)
        - (if k = soulGem r \<and> (soulGem r = soulGemAt (soulGem r) t \<or>
                         map_of (inventory (actors (host d) (caster d))) (soulGem r) \<noteq> None)
           then 1 else 0)"
    unfolding eq by (rule allI) (rule replaceSoulGem_count)
  show "\<exists>pre g post n e. src = pre @ g # post \<and>
      (\<forall>x\<in>set pre. \<not> owned (inventoryMap d) x) \<and>
      map_of (inventoryMap d) g = Some (n, e) \<and> 0 < n \<and>
      snd (fillSoulGem src t d) = replaceSoulGem (soulGemAt g t) g e d \<and>
      soulGemAt g t = TESSoulGem (gemGroup g) (gemCapacity g) t \<and>
      isInventoryMapDirty (snd (fillSoulGem src t d)) \<and>
      caster (snd (fillSoulGem src t d)) = caster d \<and>
      (\<forall>a. a \<noteq> caster d \<longrightarrow>
           actors (host (snd (fillSoulGem src t d))) a = actors (host d) a) \<and>
      inventory (actors (host (snd (fillSoulGem src t d))) (caster d)) =
        removeItem g
          (if AllowExtraSoulRelocation (config d) \<or> PreserveOwnership (config d)
           then getFirstExtraDataList e else None)
          (addObject (soulGemAt g t)
             (if PreserveOwnership (config d)
              then createExtraDataListFromOriginal
                     (if AllowExtraSoulRelocation (config d) \<or> PreserveOwnership (config d)
                      then getFirstExtraDataList e else None)
              else None)
             (inventory (actors (host d) (caster d)))) \<and>
      (\<forall>k. countOf (inventory (actors (host (snd (fillSoulGem src t d))) (caster d))) k =
           countOf (inventory (actors (host d) (caster d))) k
             + (if k = soulGemAt g t then 1 else 0)
             - (if k = g \<and> (g = soulGemAt g t \<or>
                              map_of (inventory (actors (host d) (caster d))) g \<noteq> None)
                then 1 else 0)) \<and>
      victims (snd (fillSoulGem src t d)) =
        (case getFirstExtraDataList e of
           Some x \<Rightarrow>
             if AllowExtraSoulRelocation (config d) \<and> GetSoulLevel x \<noteq> 0
             then victims d @
                    [Victim_displaced
                       (if GetSoulLevel x = 5 \<and> canHoldBlackSoul g then SoulSize_Black
                        else toSoulSize_level (GetSoulLevel x))]
             else victims d
         | None \<Rightarrow> victims d)"
    apply (rule exI[of _ pre], rule exI[of _ "soulGem r"], rule exI[of _ post],
        rule exI[of _ "itemCount r"], rule exI[of _ "entryData r"])
    apply (intro conjI)
    using first eq kind frame count
    by (simp_all add: replaceSoulGem_effect(1,2,4,5))
qed


theorem fillSoulGem_first_owned_witness:
  "fst (fillSoulGem (getSoulGemsWith example_soulGemMap 3 0) 3
         (example_session example_config 3 [(TESSoulGem 2 3 0, 1, [])])) \<and>
   isInventoryMapDirty (snd (fillSoulGem (getSoulGemsWith example_soulGemMap 3 0) 3
         (example_session example_config 3 [(TESSoulGem 2 3 0, 1, [])]))) \<and>
   inventory (actors (host (snd (fillSoulGem (getSoulGemsWith example_soulGemMap 3 0) 3
         (example_session example_config 3 [(TESSoulGem 2 3 0, 1, [])])))) 0) =
     [(TESSoulGem 2 3 0, 0, []), (TESSoulGem 2 3 3, 1, [])] \<and>
   countOf (inventory (actors (host (snd (fillSoulGem (getSoulGemsWith example_soulGemMap 3 0) 3
         (example_session example_config 3 [(TESSoulGem 2 3 0, 1, [])])))) 0))
     (TESSoulGem 2 3 0) = 0 \<and>
   countOf (inventory (actors (host (snd (fillSoulGem (getSoulGemsWith example_soulGemMap 3 0) 3
         (example_session example_config 3 [(TESSoulGem 2 3 0, 1, [])])))) 0))
     (TESSoulGem 2 3 3) = 1 \<and>
   victims (snd (fillSoulGem (getSoulGemsWith example_soulGemMap 3 0) 3
         (example_session example_config 3 [(TESSoulGem 2 3 0, 1, [])]))) = [] \<and>
   \<not> fst (fillSoulGem (getSoulGemsWith example_soulGemMap 4 0) 3
         (example_session example_config 3 [(TESSoulGem 2 3 0, 1, [])])) \<and>
   snd (fillSoulGem (getSoulGemsWith example_soulGemMap 4 0) 3
         (example_session example_config 3 [(TESSoulGem 2 3 0, 1, [])])) =
     example_session example_config 3 [(TESSoulGem 2 3 0, 1, [])]"
proof -
  let ?d = "example_session example_config 3 [(TESSoulGem 2 3 0, 1, [])]"
  let ?src = "getSoulGemsWith example_soulGemMap 3 0"
  let ?d' = "snd (fillSoulGem ?src 3 ?d)"
  have d: "inventoryMap ?d = [(TESSoulGem 2 3 0, 1, [])]" "caster ?d = 0"
    "inventory (actors (host ?d) 0) = [(TESSoulGem 2 3 0, 1, [])]" "victims ?d = []"
    "\<not> AllowExtraSoulRelocation (config ?d)" "\<not> PreserveOwnership (config ?d)"
    by (simp_all add: example_defs session_defs)
  have own: "\<exists>g\<in>set ?src. owned (inventoryMap ?d) g"
    by (simp add: d example_soulGemMap_def getSoulGemsWith_def validContainedSize_def owned_def)
  have none: "\<not> (\<exists>g\<in>set (getSoulGemsWith example_soulGemMap 4 0). owned (inventoryMap ?d) g)"
    by (simp add: d example_soulGemMap_def getSoulGemsWith_def validContainedSize_def owned_def)
  note hit = fillSoulGem_first_owned[of ?src 3 ?d]
  note miss = fillSoulGem_first_owned[of "getSoulGemsWith example_soulGemMap 4 0" 3 ?d]
  from hit own have ok: "fst (fillSoulGem ?src 3 ?d)" by blast
  with hit obtain g n e where g: "map_of (inventoryMap ?d) g = Some (n, e)"
    "isInventoryMapDirty ?d'"
    "inventory (actors (host ?d') (caster ?d)) =
       removeItem g
         (if AllowExtraSoulRelocation (config ?d) \<or> PreserveOwnership (config ?d)
          then getFirstExtraDataList e else None)
         (addObject (soulGemAt g 3)
            (if PreserveOwnership (config ?d)
             then createExtraDataListFromOriginal
                    (if AllowExtraSoulRelocation (config ?d) \<or> PreserveOwnership (config ?d)
                     then getFirstExtraDataList e else None)
             else None)
            (inventory (actors (host ?d) (caster ?d))))"
    "victims ?d' =
       (case getFirstExtraDataList e of
          Some x \<Rightarrow>
            if AllowExtraSoulRelocation (config ?d) \<and> GetSoulLevel x \<noteq> 0
            then victims ?d @
                   [Victim_displaced
                      (if GetSoulLevel x = 5 \<and> canHoldBlackSoul g then SoulSize_Black
                       else toSoulSize_level (GetSoulLevel x))]
            else victims ?d
        | None \<Rightarrow> victims ?d)"
    by blast
  from g(1) have gk: "g = TESSoulGem 2 3 0"
    by (simp add: d split: if_splits)
  have inv: "inventory (actors (host ?d') 0) =
      [(TESSoulGem 2 3 0, 0, []), (TESSoulGem 2 3 3, 1, [])]"
    using g(3) by (simp add: d gk soulGemAt_def extraLists_of_def)
  have q: "victims ?d' = []"
    using g(4) by (simp add: d split: option.splits)
  from miss none have "\<not> fst (fillSoulGem (getSoulGemsWith example_soulGemMap 4 0) 3 ?d)"
    "snd (fillSoulGem (getSoulGemsWith example_soulGemMap 4 0) 3 ?d) = ?d"
    by blast+
  with ok g(2) inv q show ?thesis
    by (simp add: countOf_def)
qed

section \<open>Precondition faults of the entry point\<close>

lemma TrapSoulWrapper_exit_frame:
  "actors (TrapSoulWrapper_exit h) = actors h"
  "processedLog (TrapSoulWrapper_exit h) = processedLog h"
  "soulsTrappedEvents (TrapSoulWrapper_exit h) = soulsTrappedEvents h"
  "mutexLog (TrapSoulWrapper_exit h) = mutexLog h"
  by (simp_all add: TrapSoulWrapper_exit_def)

lemma lock_guard_frame:
  "actors (lock_guard_exit (lock_guard h)) = actors h"
  "processedLog (lock_guard_exit (lock_guard h)) = processedLog h"
  "soulsTrappedEvents (lock_guard_exit (lock_guard h)) = soulsTrappedEvents h"
  "mutexLog (lock_guard_exit (lock_guard h)) = mutexLog h @ [Lock, Unlock]"
  by (simp_all add: lock_guard_def lock_guard_exit_def)

text \<open>
  C5. A null caster, a null victim, a dead caster or a living victim makes \<open>trapSoul\<close>
  return false before the mutex is touched: the mutex log is as before, no actor (so no
  inventory) has changed, no victim was processed and no statistics event was sent. A
  victim with no soul left makes it return false as well, with the same host except that
  the mutex was taken and released once: this check sits inside the lock.
\<close>

theorem trapSoul_precondition_faults:
  "((casterPtr = None \<or> victimPtr = None \<or>
     (\<exists>c. casterPtr = Some c \<and> IsDead (actors h c)) \<or>
     (\<exists>v. victimPtr = Some v \<and> \<not> IsDead (actors h v))) \<longrightarrow>
    (\<exists>h'. trapSoul fuel casterPtr victimPtr h = Some (False, h') \<and>
       actors h' = actors h \<and> processedLog h' = processedLog h \<and>
       soulsTrappedEvents h' = soulsTrappedEvents h \<and> mutexLog h' = mutexLog h)) \<and>
   ((\<exists>c v. casterPtr = Some c \<and> victimPtr = Some v \<and> \<not> IsDead (actors h c) \<and>
       IsDead (actors h v) \<and> remainingSoulSize (actors h v) = SoulSize_None) \<longrightarrow>
    (\<exists>h'. trapSoul fuel casterPtr victimPtr h = Some (False, h') \<and>
       actors h' = actors h \<and> processedLog h' = processedLog h \<and>
       soulsTrappedEvents h' = soulsTrappedEvents h \<and>
       mutexLog h' = mutexLog h @ [Lock, Unlock]))"
proof (intro conjI impI)
  assume "casterPtr = None \<or> victimPtr = None \<or>
     (\<exists>c. casterPtr = Some c \<and> IsDead (actors h c)) \<or>
     (\<exists>v. victimPtr = Some v \<and> \<not> IsDead (actors h v))"
  then have "trapSoul fuel casterPtr victimPtr h = Some (False, TrapSoulWrapper_exit h)"
    by (auto simp: trapSoul_def split: option.splits)
  then show "\<exists>h'. trapSoul fuel casterPtr victimPtr h = Some (False, h') \<and>
       actors h' = actors h \<and> processedLog h' = processedLog h \<and>
       soulsTrappedEvents h' = soulsTrappedEvents h \<and> mutexLog h' = mutexLog h"
    by (simp add: TrapSoulWrapper_exit_frame)
next
  assume "\<exists>c v. casterPtr = Some c \<and> victimPtr = Some v \<and> \<not> IsDead (actors h c) \<and>
       IsDead (actors h v) \<and> remainingSoulSize (actors h v) = SoulSize_None"
  then have "trapSoul fuel casterPtr victimPtr h =
      Some (False, TrapSoulWrapper_exit (lock_guard_exit (lock_guard h)))"
    by (auto simp: trapSoul_def getRemainingSoulLevelValue_def lock_guard_def Let_def)
  then show "\<exists>h'. trapSoul fuel casterPtr victimPtr h = Some (False, h') \<and>
       actors h' = actors h \<and> processedLog h' = processedLog h \<and>
       soulsTrappedEvents h' = soulsTrappedEvents h \<and>
       mutexLog h' = mutexLog h @ [Lock, Unlock]"
    by (simp add: TrapSoulWrapper_exit_frame lock_guard_frame)
qed

theorem trapSoul_precondition_faults_witness:
  "(\<exists>h'. trapSoul 0 None (Some 1) (example_host example_config 3 []) = Some (False, h') \<and>
      mutexLog h' = []) \<and>
   (\<exists>h'. trapSoul 0 (Some 0) None (example_host example_config 3 []) = Some (False, h') \<and>
      mutexLog h' = []) \<and>
   (\<exists>h'. trapSoul 0 (Some 1) (Some 2) (example_host example_config 3 []) = Some (False, h') \<and>
      mutexLog h' = []) \<and>
   (\<exists>h'. trapSoul 0 (Some 0) (Some 0) (example_host example_config 3 []) = Some (False, h') \<and>
      mutexLog h' = []) \<and>
   (\<exists>h'. trapSoul 0 (Some 0) (Some 1) (example_host example_config 0 []) = Some (False, h') \<and>
      mutexLog h' = [Lock, Unlock])"
proof -
  have dead: "IsDead (actors (example_host example_config 3 []) 1)"
    and alive: "\<not> IsDead (actors (example_host example_config 3 []) 0)"
    and alive0: "\<not> IsDead (actors (example_host example_config 0 []) 0)"
    and dead0: "IsDead (actors (example_host example_config 0 []) 1)"
    and drained: "remainingSoulSize (actors (example_host example_config 0 []) 1) = SoulSize_None"
    and log: "\<And>s. mutexLog (example_host example_config s []) = []"
    by (simp_all add: example_defs)
  show ?thesis
    using dead alive alive0 dead0 drained
      trapSoul_precondition_faults[of None "Some 1" "example_host example_config 3 []" 0]
      trapSoul_precondition_faults[of "Some 0" None "example_host example_config 3 []" 0]
      trapSoul_precondition_faults[of "Some 1" "Some 2" "example_host example_config 3 []" 0]
      trapSoul_precondition_faults[of "Some 0" "Some 0" "example_host example_config 3 []" 0]
      trapSoul_precondition_faults[of "Some 0" "Some 1" "example_host example_config 0 []" 0]
    by (auto simp: log)
qed

section \<open>The search loops as first-match searches\<close>

lemma fillSoulGem_cases:
  "fillSoulGem (getSoulGemsWith (soulGemMap (host d)) c e) t d =
     (if ownsGemWith d c e then (True, filled c e t d) else (False, d))"
  using fillSoulGem_ownsGemWith[of d c e t]
    fillSoulGem_False[of "getSoulGemsWith (soulGemMap (host d)) c e" t d]
  by (cases "fillSoulGem (getSoulGemsWith (soulGemMap (host d)) c e) t d")
     (auto simp: filled_def)

lemma find_append_case:
  "find P (xs @ ys) = (case find P xs of None \<Rightarrow> find P ys | Some x \<Rightarrow> Some x)"
  by (induction xs) auto

lemma find_map_Pair:
  "find (ownsPair d) (map (Pair c) es) = map_option (Pair c) (find (ownsGemWith d c) es)"
  by (induction es) (auto simp: ownsPair_def)

lemma find_map_flip:
  "find (ownsPair d) (map (\<lambda>c. (c, e)) cs) =
     map_option (\<lambda>c. (c, e)) (find (\<lambda>c. ownsGemWith d c e) cs)"
  by (induction cs) (auto simp: ownsPair_def)

lemma tiers_then_contained_Cons:
  "find (ownsPair d) (tiers_then_contained (c # cs) bound) =
     (case find (ownsGemWith d c) [0..<bound c] of
        None \<Rightarrow> find (ownsPair d) (tiers_then_contained cs bound)
      | Some e \<Rightarrow> Some (c, e))"
  by (simp add: tiers_then_contained_def find_append_case find_map_Pair split: option.splits)

lemma contained_then_tiers_Cons:
  "find (ownsPair d) (contained_then_tiers (e # es) cs) =
     (case find (\<lambda>c. ownsGemWith d c e) cs of
        None \<Rightarrow> find (ownsPair d) (contained_then_tiers es cs)
      | Some c \<Rightarrow> Some (c, e))"
  by (simp add: contained_then_tiers_def find_append_case find_map_flip split: option.splits)

lemma trapBlackSoul_loop_find:
  "trapBlackSoul_loop e mx d =
     (case find (ownsGemWith d SoulGemCapacity_Dual) [e..<mx] of
        None \<Rightarrow> (False, d)
      | Some e' \<Rightarrow> (True, placed_black e' d))"
proof (induction "mx - e" arbitrary: e)
  case 0
  then show ?case by (simp add: trapBlackSoul_loop.simps[of e mx d])
next
  case (Suc n)
  then have lt: "e < mx" and n: "n = mx - Suc e" by simp_all
  show ?case
  proof (cases "ownsGemWith d SoulGemCapacity_Dual e")
    case True
    with lt show ?thesis
      by (simp add: trapBlackSoul_loop.simps[of e mx d] upt_conv_Cons
          fillSoulGem_cases placed_black_def Let_def)
  next
    case False
    with lt Suc.hyps(1)[OF n] show ?thesis
      by (simp add: trapBlackSoul_loop.simps[of e mx d] upt_conv_Cons fillSoulGem_cases)
  qed
qed

lemma trapFullSoul_relocation_inner_find:
  "trapFullSoul_relocation_inner c e mx d =
     (case find (ownsGemWith d c) [e..<mx] of
        None \<Rightarrow> (False, d)
      | Some e' \<Rightarrow> (True, placed_full c e' d))"
proof (induction "mx - e" arbitrary: e)
  case 0
  then show ?case by (simp add: trapFullSoul_relocation_inner.simps[of c e mx d])
next
  case (Suc n)
  then have lt: "e < mx" and n: "n = mx - Suc e" by simp_all
  show ?case
  proof (cases "ownsGemWith d c e")
    case True
    with lt show ?thesis
      by (simp add: trapFullSoul_relocation_inner.simps[of c e mx d] upt_conv_Cons
          fillSoulGem_cases placed_full_def Let_def)
  next
    case False
    with lt Suc.hyps(1)[OF n] show ?thesis
      by (simp add: trapFullSoul_relocation_inner.simps[of c e mx d] upt_conv_Cons
          fillSoulGem_cases)
  qed
qed

lemma trapFullSoul_relocation_outer_find:
  "trapFullSoul_relocation_outer c mc mx d =
     (case find (ownsPair d) (tiers_then_contained [c..<Suc mc] (\<lambda>c. mx)) of
        None \<Rightarrow> (False, d)
      | Some (c', e') \<Rightarrow> (True, placed_full c' e' d))"
proof (induction "Suc mc - c" arbitrary: c)
  case 0
  then show ?case
    by (simp add: trapFullSoul_relocation_outer.simps[of c mc mx d] tiers_then_contained_def)
next
  case (Suc n)
  then have le: "c \<le> mc" and n: "n = Suc mc - Suc c" by simp_all
  from le have upt: "[c..<Suc mc] = c # [Suc c..<Suc mc]"
    by (simp add: upt_conv_Cons)
  show ?case
  proof (cases "find (ownsGemWith d c) [0..<mx]")
    case None
    with le Suc.hyps(1)[OF n] show ?thesis
      by (simp add: trapFullSoul_relocation_outer.simps[of c mc mx d] upt
          tiers_then_contained_Cons trapFullSoul_relocation_inner_find del: upt_Suc)
  next
    case (Some e')
    with le show ?thesis
      by (simp add: trapFullSoul_relocation_outer.simps[of c mc mx d] upt
          tiers_then_contained_Cons trapFullSoul_relocation_inner_find del: upt_Suc)
  qed
qed

lemma trapFullSoul_norelocation_inner_find:
  "trapFullSoul_norelocation_inner e c mc d =
     (case find (\<lambda>c'. ownsGemWith d c' e) [c..<Suc mc] of
        None \<Rightarrow> (False, d)
      | Some c' \<Rightarrow> (True, placed_full_norelocation c' e d))"
proof (induction "Suc mc - c" arbitrary: c)
  case 0
  then show ?case by (simp add: trapFullSoul_norelocation_inner.simps[of e c mc d])
next
  case (Suc n)
  then have le: "c \<le> mc" and n: "n = Suc mc - Suc c" by simp_all
  from le have upt: "[c..<Suc mc] = c # [Suc c..<Suc mc]"
    by (simp add: upt_conv_Cons)
  show ?case
  proof (cases "ownsGemWith d c e")
    case True
    with le show ?thesis
      by (simp add: trapFullSoul_norelocation_inner.simps[of e c mc d] upt fillWhiteSoulGem_def
          fillSoulGem_cases placed_full_norelocation_def Let_def del: upt_Suc)
  next
    case False
    with le Suc.hyps(1)[OF n] show ?thesis
      by (simp add: trapFullSoul_norelocation_inner.simps[of e c mc d] upt fillWhiteSoulGem_def
          fillSoulGem_cases del: upt_Suc)
  qed
qed

lemma trapFullSoul_norelocation_outer_find:
  "trapFullSoul_norelocation_outer e mx c mc d =
     (case find (ownsPair d) (contained_then_tiers [e..<mx] [c..<Suc mc]) of
        None \<Rightarrow> (False, d)
      | Some (c', e') \<Rightarrow> (True, placed_full_norelocation c' e' d))"
proof (induction "mx - e" arbitrary: e)
  case 0
  then show ?case
    by (simp add: trapFullSoul_norelocation_outer.simps[of e mx c mc d]
        contained_then_tiers_def)
next
  case (Suc n)
  then have lt: "e < mx" and n: "n = mx - Suc e" by simp_all
  from lt have upt: "[e..<mx] = e # [Suc e..<mx]"
    by (simp add: upt_conv_Cons)
  show ?case
  proof (cases "find (\<lambda>c'. ownsGemWith d c' e) [c..<Suc mc]")
    case None
    with lt Suc.hyps(1)[OF n] show ?thesis
      by (simp add: trapFullSoul_norelocation_outer.simps[of e mx c mc d] upt
          contained_then_tiers_Cons trapFullSoul_norelocation_inner_find del: upt_Suc)
  next
    case (Some c')
    with lt show ?thesis
      by (simp add: trapFullSoul_norelocation_outer.simps[of e mx c mc d] upt
          contained_then_tiers_Cons trapFullSoul_norelocation_inner_find del: upt_Suc)
  qed
qed

lemma trapShrunkSoul_inner_find:
  "trapShrunkSoul_inner c e mx d =
     (case find (ownsGemWith d c) [e..<mx] of
        None \<Rightarrow> (False, d)
      | Some e' \<Rightarrow> (True, placed_shrunk c e' d))"
proof (induction "mx - e" arbitrary: e)
  case 0
  then show ?case by (simp add: trapShrunkSoul_inner.simps[of c e mx d])
next
  case (Suc n)
  then have lt: "e < mx" and n: "n = mx - Suc e" by simp_all
  show ?case
  proof (cases "ownsGemWith d c e")
    case True
    with lt show ?thesis
      by (simp add: trapShrunkSoul_inner.simps[of c e mx d] upt_conv_Cons
          fillSoulGem_cases placed_shrunk_def Let_def)
  next
    case False
    with lt Suc.hyps(1)[OF n] show ?thesis
      by (simp add: trapShrunkSoul_inner.simps[of c e mx d] upt_conv_Cons fillSoulGem_cases)
  qed
qed

lemma trapShrunkSoul_outer_find:
  "trapShrunkSoul_outer a c d =
     (case find (ownsPair d)
             (tiers_then_contained (rev [SoulGemCapacity_First..<Suc c])
                (\<lambda>c. if a then toSoulSize c else SoulSize_Petty)) of
        None \<Rightarrow> (False, d)
      | Some (c', e') \<Rightarrow> (True, placed_shrunk c' e' d))"
proof (induction c)
  case 0
  show ?case
    by (simp add: trapShrunkSoul_outer.simps[of a 0 d] tiers_then_contained_def)
next
  case (Suc c)
  have rv: "rev [SoulGemCapacity_First..<Suc (Suc c)] = Suc c # rev [SoulGemCapacity_First..<Suc c]"
    by simp
  show ?case
  proof (cases "find (ownsGemWith d (Suc c))
                  [0..<(if a then toSoulSize (Suc c) else SoulSize_Petty)]")
    case None
    with Suc show ?thesis
      by (simp only: trapShrunkSoul_outer.simps[of a "Suc c" d] rv tiers_then_contained_Cons
          trapShrunkSoul_inner_find) simp
  next
    case (Some e')
    then show ?thesis
      by (simp only: trapShrunkSoul_outer.simps[of a "Suc c" d] rv tiers_then_contained_Cons
          trapShrunkSoul_inner_find) simp
  qed
qed

lemma trapSplitSoul_loop_find:
  "trapSplitSoul_loop e mx d =
     (case find (ownsGemWith d (toSoulGemCapacity (soulSize (victim_value d)))) [e..<mx] of
        None \<Rightarrow> (False, d)
      | Some e' \<Rightarrow> (True, placed_split e' d))"
proof (induction "mx - e" arbitrary: e)
  case 0
  then show ?case by (simp add: trapSplitSoul_loop.simps[of e mx d])
next
  case (Suc n)
  then have lt: "e < mx" and n: "n = mx - Suc e" by simp_all
  show ?case
  proof (cases "ownsGemWith d (toSoulGemCapacity (soulSize (victim_value d))) e")
    case True
    with lt show ?thesis
      by (simp add: trapSplitSoul_loop.simps[of e mx d] upt_conv_Cons
          fillSoulGem_cases placed_split_def Let_def)
  next
    case False
    with lt Suc.hyps(1)[OF n] show ?thesis
      by (simp add: trapSplitSoul_loop.simps[of e mx d] upt_conv_Cons fillSoulGem_cases)
  qed
qed

section \<open>The strategies as first-match searches\<close>

lemma tryReplaceBlackSoulInDualSoulGemWithWhiteSoul_cases:
  "tryReplaceBlackSoulInDualSoulGemWithWhiteSoul d =
     (if ownsGemWith d SoulGemCapacity_Dual SoulSize_Black \<and>
         ownsGemWith d SoulGemCapacity_Black SoulSize_None
      then (True, placed_white_in_dual d) else (False, d))"
proof (cases "findFirstOwnedObjectInList (inventoryMap d)
                (getSoulGemsWith (soulGemMap (host d)) SoulGemCapacity_Dual SoulSize_Black)")
  case None
  then have "\<not> ownsGemWith d SoulGemCapacity_Dual SoulSize_Black"
    by (simp add: findFirstOwnedObjectInList_None ownsGemWith_def list_ex_iff)
  with None show ?thesis
    by (simp add: tryReplaceBlackSoulInDualSoulGemWithWhiteSoul_def)
next
  case (Some r)
  then have "ownsGemWith d SoulGemCapacity_Dual SoulSize_Black"
    using findFirstOwnedObjectInList_None[of "inventoryMap d"
        "getSoulGemsWith (soulGemMap (host d)) SoulGemCapacity_Dual SoulSize_Black"]
    by (simp add: ownsGemWith_def list_ex_iff)
  with Some show ?thesis
    by (simp add: tryReplaceBlackSoulInDualSoulGemWithWhiteSoul_def fillBlackSoulGem_def
        fillSoulGem_cases placed_white_in_dual_def Let_def)
qed

lemma trapBlackSoul_find:
  "trapBlackSoul d =
     (if ownsGemWith d SoulGemCapacity_Black SoulSize_None
      then (True,
            notifySoulTrapSuccess SoulCaptured
              (victim_value (filled SoulGemCapacity_Black SoulSize_None SoulSize_Black d))
              (filled SoulGemCapacity_Black SoulSize_None SoulSize_Black d))
      else (case find (ownsGemWith d SoulGemCapacity_Dual)
                   [0..<(if AllowSoulDisplacement (config d) then SoulSize_Black
                         else SoulSize_Petty)] of
              None \<Rightarrow> (False, d)
            | Some e \<Rightarrow> (True, placed_black e d)))"
  by (simp add: trapBlackSoul_def fillBlackSoulGem_def fillSoulGem_cases
      trapBlackSoul_loop_find)

lemma trapFullSoul_find:
  "trapFullSoul d =
     (if AllowSoulRelocation (config d)
      then (case find (ownsPair d)
                   (tiers_then_contained
                      [toSoulGemCapacity (soulSize (victim_value d))..<
                         Suc (maxSoulCapacityToSearch d)]
                      (\<lambda>c. maxContainedSoulSizeToSearch d)) of
              Some (c, e) \<Rightarrow> (True, placed_full c e d)
            | None \<Rightarrow>
                if AllowSoulDisplacement (config d) \<and>
                   (AllowPartiallyFillingSoulGems (config d) \<or>
                    soulSize (victim_value d) = SoulSize_Grand) \<and>
                   ownsGemWith d SoulGemCapacity_Dual SoulSize_Black \<and>
                   ownsGemWith d SoulGemCapacity_Black SoulSize_None
                then (True,
                      notifySoulTrapSuccess SoulDisplaced
                        (victim_value (placed_white_in_dual d)) (placed_white_in_dual d))
                else (False, d))
      else (case find (ownsPair d)
                   (contained_then_tiers [0..<maxContainedSoulSizeToSearch d]
                      [toSoulGemCapacity (soulSize (victim_value d))..<
                         Suc (maxSoulCapacityToSearch d)]) of
              Some (c, e) \<Rightarrow> (True, placed_full_norelocation c e d)
            | None \<Rightarrow> (False, d)))"
  by (simp add: trapFullSoul_def Let_def trapFullSoul_relocation_outer_find
      trapFullSoul_norelocation_outer_find
      tryReplaceBlackSoulInDualSoulGemWithWhiteSoul_cases
      maxSoulCapacityToSearch_def maxContainedSoulSizeToSearch_def
      split: option.splits del: upt_Suc)

lemma upt_Suc_pred: "[Suc 0..<Suc (n - Suc 0)] = [Suc 0..<n]"
  by (cases n) simp_all

lemma trapShrunkSoul_find:
  "trapShrunkSoul d =
     (case find (ownsPair d)
             (tiers_then_contained
                (rev [SoulGemCapacity_First..<toSoulGemCapacity (soulSize (victim_value d))])
                (\<lambda>c. if AllowSoulDisplacement (config d) then toSoulSize c
                     else SoulSize_Petty)) of
        None \<Rightarrow> (False, d)
      | Some (c, e) \<Rightarrow> (True, placed_shrunk c e d))"
  by (simp add: trapShrunkSoul_def trapShrunkSoul_template_def trapShrunkSoul_outer_find
      upt_Suc_pred del: upt_Suc)

lemma trapSplitSoul_find:
  "trapSplitSoul d =
     (case find (ownsGemWith d (toSoulGemCapacity (soulSize (victim_value d))))
             [0..<maxContainedSoulSizeToSearch d] of
        None \<Rightarrow> (False, d)
      | Some e \<Rightarrow> (True, placed_split e d))"
  by (simp add: trapSplitSoul_def trapSplitSoul_loop_find maxContainedSoulSizeToSearch_def)

subsection \<open>A failed strategy leaves the session as it was\<close>

lemma trapBlackSoul_False: "trapBlackSoul d = (False, d') \<Longrightarrow> d' = d"
  by (auto simp: trapBlackSoul_find split: if_splits option.splits)

lemma trapFullSoul_False: "trapFullSoul d = (False, d') \<Longrightarrow> d' = d"
  by (auto simp: trapFullSoul_find split: if_splits option.splits)

lemma trapShrunkSoul_False: "trapShrunkSoul d = (False, d') \<Longrightarrow> d' = d"
  by (auto simp: trapShrunkSoul_find split: if_splits option.splits)

lemma trapSplitSoul_False: "trapSplitSoul d = (False, d') \<Longrightarrow> d' = d"
  by (auto simp: trapSplitSoul_find split: if_splits option.splits)

subsection \<open>Properties kept by the strategies\<close>

lemma preservesD:
  "preserves P \<Longrightarrow> P d \<Longrightarrow> P (replaceSoulGem a r e d)"
  "preserves P \<Longrightarrow> P d \<Longrightarrow> P (notifySoulTrapSuccess m v d)"
  "preserves P \<Longrightarrow> P d \<Longrightarrow> P (emplaceVictim v' d)"
  by (auto simp: preserves_def)

lemma filled_preserves: "preserves P \<Longrightarrow> P d \<Longrightarrow> P (filled c e t d)"
  by (auto simp: filled_def fillSoulGem_def preservesD split: option.splits)

lemma placed_preserves:
  assumes "preserves P" "P d"
  shows "P (placed_black e d)" "P (placed_full c e d)" "P (placed_full_norelocation c e d)"
    "P (placed_shrunk c e d)" "P (placed_split e d)" "P (placed_white_in_dual d)"
  using assms
  by (simp_all add: placed_black_def placed_full_def placed_full_norelocation_def
      placed_shrunk_def placed_split_def placed_white_in_dual_def Let_def
      preservesD filled_preserves)

lemma trapBlackSoul_preserves:
  "preserves P \<Longrightarrow> P d \<Longrightarrow> trapBlackSoul d = (r, d') \<Longrightarrow> P d'"
  by (auto simp: trapBlackSoul_find placed_preserves preservesD filled_preserves
      split: if_splits option.splits)

lemma trapFullSoul_preserves:
  "preserves P \<Longrightarrow> P d \<Longrightarrow> trapFullSoul d = (r, d') \<Longrightarrow> P d'"
  by (auto simp: trapFullSoul_find placed_preserves preservesD
      split: if_splits option.splits)

lemma trapShrunkSoul_preserves:
  "preserves P \<Longrightarrow> P d \<Longrightarrow> trapShrunkSoul d = (r, d') \<Longrightarrow> P d'"
  by (auto simp: trapShrunkSoul_find placed_preserves split: if_splits option.splits)

lemma trapSplitSoul_preserves:
  "preserves P \<Longrightarrow> P d \<Longrightarrow> trapSplitSoul d = (r, d') \<Longrightarrow> P d'"
  by (auto simp: trapSplitSoul_find placed_preserves split: if_splits option.splits)

section \<open>Fields no strategy changes\<close>

lemmas primitive_defs =
  replaceSoulGem_def notifySoulTrapSuccess_def notify_def incrementSoulsTrappedStat_def
  setInventoryHasChanged_def

lemma preserves_config: "preserves (\<lambda>x. config x = k)"
  by (simp add: preserves_def primitive_defs emplaceVictim_def Let_def split: option.splits)

lemma preserves_caster: "preserves (\<lambda>x. caster x = k)"
  by (simp add: preserves_def primitive_defs emplaceVictim_def Let_def split: option.splits)

lemma preserves_victim: "preserves (\<lambda>x. victim x = k)"
  by (simp add: preserves_def primitive_defs emplaceVictim_def Let_def split: option.splits)

lemma filled_fields:
  "config (filled c e t d) = config d"
  "caster (filled c e t d) = caster d"
  "victim (filled c e t d) = victim d"
  by (rule filled_preserves[OF preserves_config] filled_preserves[OF preserves_caster]
        filled_preserves[OF preserves_victim], rule refl)+

lemma notifySoulTrapSuccess_fields:
  "config (notifySoulTrapSuccess m v d) = config d"
  "victims (notifySoulTrapSuccess m v d) = victims d"
  "victim (notifySoulTrapSuccess m v d) = victim d"
  "caster (notifySoulTrapSuccess m v d) = caster d"
  "inventoryMap (notifySoulTrapSuccess m v d) = inventoryMap d"
  "isInventoryMapDirty (notifySoulTrapSuccess m v d) = isInventoryMapDirty d"
  "actors (host (notifySoulTrapSuccess m v d)) = actors (host d)"
  by (simp_all add: notifySoulTrapSuccess_def notify_def incrementSoulsTrappedStat_def)

section \<open>The shrinking strategy\<close>

text \<open>
  C7. The shrinking strategy visits the capacity tiers in descending order, from one
  below the tier of the soul down to the first tier, and at each tier the contained soul
  sizes in ascending order, from empty up to (not including) the size of that tier when
  displacement is enabled and only empty otherwise. It stops at the first pair of which
  the caster owns a gem, fills that gem with a soul of exactly the tier's size
  (\<open>toSoulSize c\<close>), sends the SoulShrunk notification, and puts the displaced soul back
  into the queue only when relocation is enabled and the displaced content was not
  empty. When no pair is owned it fails and leaves the session as it was.
\<close>

theorem trapShrunkSoul_descending_tiers:
  "trapShrunkSoul d =
     (case find (ownsPair d)
             (tiers_then_contained
                (rev [SoulGemCapacity_First..<toSoulGemCapacity (soulSize (victim_value d))])
                (\<lambda>c. if AllowSoulDisplacement (config d) then toSoulSize c
                     else SoulSize_Petty)) of
        None \<Rightarrow> (False, d)
      | Some (c, e) \<Rightarrow>
          (True,
           (let d1 = filled c e (toSoulSize c) d;
                d2 = notifySoulTrapSuccess SoulShrunk (victim_value d) d1
            in if AllowSoulRelocation (config d) \<and> e > SoulSize_None
               then d2\<lparr>victims := victims d1 @ [Victim_displaced e]\<rparr>
               else d2)))"
  by (simp add: trapShrunkSoul_find placed_shrunk_def Let_def notifySoulTrapSuccess_fields
      filled_fields victim_value_def emplaceVictim_def emplace_def
      split: option.splits)

lemmas search_defs =
  ownsPair_def ownsGemWith_def owned_def getSoulGemsWith_def validContainedSize_def
  tiers_then_contained_def toSoulGemCapacity_def toSoulSize_def victim_value_def

theorem trapShrunkSoul_descending_tiers_witness:
  "fst (trapShrunkSoul
          (example_session shrink_config 5
             [(TESSoulGem 1 2 0, 1, []), (TESSoulGem 2 3 1, 1, [])])) \<and>
   map soulSize
     (victims (snd (trapShrunkSoul
          (example_session shrink_config 5
             [(TESSoulGem 1 2 0, 1, []), (TESSoulGem 2 3 1, 1, [])])))) = [SoulSize_Petty] \<and>
   inventory (actors (host (snd (trapShrunkSoul
          (example_session shrink_config 5
             [(TESSoulGem 1 2 0, 1, []), (TESSoulGem 2 3 1, 1, [])])))) 0) =
     [(TESSoulGem 1 2 0, 1, []), (TESSoulGem 2 3 1, 0, []), (TESSoulGem 2 3 3, 1, [])]"
proof -
  let ?d = "example_session shrink_config 5
             [(TESSoulGem 1 2 0, 1, []), (TESSoulGem 2 3 1, 1, [])]"
  have upt: "[Suc 0..<5] = [1, 2, 3, 4]" "[0..<4] = [0, 1, 2, 3]" "[0..<3] = [0, 1, 2]"
    "[0..<2] = [0, 1]"
    by (simp_all add: upt_rec)
  have "find (ownsPair ?d)
          (tiers_then_contained
             (rev [SoulGemCapacity_First..<toSoulGemCapacity (soulSize (victim_value ?d))])
             (\<lambda>c. if AllowSoulDisplacement (config ?d) then toSoulSize c
                  else SoulSize_Petty)) = Some (3, 1)"
    by (simp add: example_defs session_defs shrink_config_def search_defs upt)
  with trapShrunkSoul_descending_tiers[of ?d] show ?thesis
    by (simp add: example_defs session_defs shrink_config_def victim_value_def filled_def
        fillSoulGem_def getSoulGemsWith_def validContainedSize_def toSoulSize_def
        soulGemAt_def primitive_defs getFirstExtraDataList_def
        createExtraDataListFromOriginal_def AddObjectToContainer_def RemoveItem_def
        extraLists_of_def isPrimarySoul_def Victim_displaced_def)
qed

section \<open>The full-soul search with relocation\<close>

lemma find_upt_Some:
  "find P [a..<b] = Some x \<Longrightarrow> P x \<and> a \<le> x \<and> x < b \<and> (\<forall>y. a \<le> y \<and> y < x \<longrightarrow> \<not> P y)"
proof (induction "b - a" arbitrary: a)
  case 0
  then show ?case by simp
next
  case (Suc n)
  then have lt: "a < b" and n: "n = b - Suc a" by simp_all
  show ?case
  proof (cases "P a")
    case True
    with lt Suc.prems show ?thesis by (auto simp: upt_conv_Cons)
  next
    case False
    with lt Suc.prems have "find P [Suc a..<b] = Some x" by (simp add: upt_conv_Cons)
    from Suc.hyps(1)[OF n this] have
      "P x" "Suc a \<le> x" "x < b" "\<forall>y. Suc a \<le> y \<and> y < x \<longrightarrow> \<not> P y"
      by auto
    moreover have "\<And>y. a \<le> y \<Longrightarrow> y \<noteq> a \<Longrightarrow> Suc a \<le> y" by simp
    ultimately show ?thesis
      using False by (metis Suc_leD)
  qed
qed

lemma find_upt_None: "find P [a..<b] = None \<longleftrightarrow> (\<forall>x. a \<le> x \<and> x < b \<longrightarrow> \<not> P x)"
  by (auto simp: find_None_iff)

lemma set_tiers_then_contained:
  "set (tiers_then_contained cs bound) = {(c, e). c \<in> set cs \<and> e < bound c}"
  by (auto simp: tiers_then_contained_def)

lemma tiers_first_match:
  "find (ownsPair d) (tiers_then_contained [a..<b] (\<lambda>c. mx)) = Some (c', e') \<Longrightarrow>
   ownsGemWith d c e \<Longrightarrow> a \<le> c \<Longrightarrow> c < b \<Longrightarrow> e < mx \<Longrightarrow>
     ownsGemWith d c' e' \<and> a \<le> c' \<and> (c' < c \<or> (c' = c \<and> e' \<le> e))"
proof (induction "b - a" arbitrary: a)
  case 0
  then show ?case by simp
next
  case (Suc n)
  then have lt: "a < b" and n: "n = b - Suc a" by simp_all
  from lt have upt: "[a..<b] = a # [Suc a..<b]" by (simp add: upt_conv_Cons)
  show ?case
  proof (cases "find (ownsGemWith d a) [0..<mx]")
    case None
    with Suc.prems(1) have rest:
      "find (ownsPair d) (tiers_then_contained [Suc a..<b] (\<lambda>c. mx)) = Some (c', e')"
      by (simp add: upt tiers_then_contained_Cons)
    from None Suc.prems(2,5) have "c \<noteq> a" by (auto simp: find_upt_None)
    with Suc.prems(3) have "Suc a \<le> c" by simp
    from Suc.hyps(1)[OF n rest Suc.prems(2) this Suc.prems(4,5)] show ?thesis by auto
  next
    case (Some e0)
    with Suc.prems(1) have eq: "c' = a" "e' = e0"
      by (simp_all add: upt tiers_then_contained_Cons)
    from find_upt_Some[OF Some] have e0: "ownsGemWith d a e0"
      "\<forall>y. y < e0 \<longrightarrow> \<not> ownsGemWith d a y" by auto
    show ?thesis
    proof (cases "c = a")
      case True
      with e0 Suc.prems(2) have "e0 \<le> e" by (metis not_le_imp_less)
      with eq e0 True show ?thesis by simp
    next
      case False
      with Suc.prems(3) eq e0 show ?thesis by simp
    qed
  qed
qed

text \<open>
  C3 (as the code has it). With relocation enabled, let the caster own a gem of capacity
  \<open>c\<close> and contained soul size \<open>e\<close> that the search may use: \<open>c\<close> lies between the tier of
  the soul and the last tier searched, and \<open>e\<close> is below the bound on contained sizes. Then
  the search succeeds, and the pair \<open>(c', e')\<close> it fills is owned and comes no later than
  \<open>(c, e)\<close>: it has a smaller capacity, or the same capacity and a contained soul size that
  is no larger. So the smaller capacity is chosen first, and within one capacity the
  emptier gem is chosen before a fuller one.
\<close>

theorem trapFullSoul_relocation_first_fit:
  assumes "AllowSoulRelocation (config d)"
    and "ownsGemWith d c e"
    and "toSoulGemCapacity (soulSize (victim_value d)) \<le> c"
    and "c \<le> maxSoulCapacityToSearch d"
    and "e < maxContainedSoulSizeToSearch d"
  shows "\<exists>c' e'. trapFullSoul d = (True, placed_full c' e' d) \<and> ownsGemWith d c' e' \<and>
           toSoulGemCapacity (soulSize (victim_value d)) \<le> c' \<and>
           (c' < c \<or> (c' = c \<and> e' \<le> e))"
proof -
  let ?order = "tiers_then_contained
      [toSoulGemCapacity (soulSize (victim_value d))..<Suc (maxSoulCapacityToSearch d)]
      (\<lambda>c. maxContainedSoulSizeToSearch d)"
  have "(c, e) \<in> set ?order"
    using assms(3-5) by (simp add: set_tiers_then_contained del: upt_Suc)
  with assms(2) have "find (ownsPair d) ?order \<noteq> None"
    by (auto simp: find_None_iff ownsPair_def simp del: upt_Suc)
  then obtain c' e' where f: "find (ownsPair d) ?order = Some (c', e')"
    by auto
  from tiers_first_match[OF f assms(2,3) _ assms(5)] assms(4)
  have "ownsGemWith d c' e' \<and> toSoulGemCapacity (soulSize (victim_value d)) \<le> c' \<and>
      (c' < c \<or> (c' = c \<and> e' \<le> e))"
    by simp
  moreover from f assms(1) have "trapFullSoul d = (True, placed_full c' e' d)"
    by (simp add: trapFullSoul_find del: upt_Suc)
  ultimately show ?thesis by blast
qed

lemmas placing_defs =
  filled_def fillSoulGem_def soulGemAt_def primitive_defs getFirstExtraDataList_def
  createExtraDataListFromOriginal_def AddObjectToContainer_def RemoveItem_def
  extraLists_of_def isPrimarySoul_def Victim_displaced_def

lemma bestfit_common_session:
  defines "d0 \<equiv> example_session bestfit_config 3
             [(TESSoulGem 2 3 0, 1, []), (TESSoulGem 2 3 2, 1, [])]"
  shows "AllowSoulRelocation (config d0)" "AllowSoulDisplacement (config d0)"
    "ownsGemWith d0 3 0" "ownsGemWith d0 3 2"
    "toSoulGemCapacity (soulSize (victim_value d0)) = 3"
    "maxSoulCapacityToSearch d0 = SoulGemCapacity_LastWhite"
    "maxContainedSoulSizeToSearch d0 = 3"
    "\<not> ownsGemWith d0 3 1"
  by (simp_all add: d0_def example_defs session_defs bestfit_config_def search_defs
      maxSoulCapacityToSearch_def maxContainedSoulSizeToSearch_def)

theorem trapFullSoul_relocation_first_fit_witness:
  "trapFullSoul (example_session bestfit_config 3
       [(TESSoulGem 2 3 0, 1, []), (TESSoulGem 2 3 2, 1, [])]) =
     (True, placed_full 3 0 (example_session bestfit_config 3
       [(TESSoulGem 2 3 0, 1, []), (TESSoulGem 2 3 2, 1, [])]))"
  using trapFullSoul_relocation_first_fit[of
      "example_session bestfit_config 3 [(TESSoulGem 2 3 0, 1, []), (TESSoulGem 2 3 2, 1, [])]"
      3 0]
  by (auto simp: bestfit_common_session SoulGemCapacity_LastWhite_def)

text \<open>
  The wording of the specification does not hold here: the caster owns an empty Common gem and a Common gem holding
  a Lesser soul, both usable for a Common soul. The search fills the empty one; the
  fuller one is still there afterwards.
\<close>

theorem most_filled_first_counterexample:
  "ownsGemWith (example_session bestfit_config 3
       [(TESSoulGem 2 3 0, 1, []), (TESSoulGem 2 3 2, 1, [])]) 3 2 \<and>
   SoulSize_Lesser < maxContainedSoulSizeToSearch (example_session bestfit_config 3
       [(TESSoulGem 2 3 0, 1, []), (TESSoulGem 2 3 2, 1, [])]) \<and>
   fst (trapFullSoul (example_session bestfit_config 3
       [(TESSoulGem 2 3 0, 1, []), (TESSoulGem 2 3 2, 1, [])])) \<and>
   inventory (actors (host (snd (trapFullSoul (example_session bestfit_config 3
       [(TESSoulGem 2 3 0, 1, []), (TESSoulGem 2 3 2, 1, [])])))) 0) =
     [(TESSoulGem 2 3 0, 0, []), (TESSoulGem 2 3 2, 1, []), (TESSoulGem 2 3 3, 1, [])]"
proof -
  let ?d = "example_session bestfit_config 3
       [(TESSoulGem 2 3 0, 1, []), (TESSoulGem 2 3 2, 1, [])]"
  have upt: "[0..<3] = [0, 1, 2]" by (simp add: upt_rec)
  have "find (ownsPair ?d)
          (tiers_then_contained
             [toSoulGemCapacity (soulSize (victim_value ?d))..<Suc (maxSoulCapacityToSearch ?d)]
             (\<lambda>c. maxContainedSoulSizeToSearch ?d)) = Some (3, 0)"
    by (simp add: bestfit_common_session SoulGemCapacity_LastWhite_def upt_rec[of 3]
        tiers_then_contained_Cons upt ownsPair_def del: upt_Suc)
  then have "trapFullSoul ?d = (True, placed_full 3 0 ?d)"
    by (simp add: trapFullSoul_find bestfit_common_session del: upt_Suc)
  moreover have "inventory (actors (host (placed_full 3 0 ?d)) 0) =
     [(TESSoulGem 2 3 0, 0, []), (TESSoulGem 2 3 2, 1, []), (TESSoulGem 2 3 3, 1, [])]"
    by (simp add: placed_full_def example_defs session_defs bestfit_config_def
        victim_value_def getSoulGemsWith_def validContainedSize_def placing_defs)
  ultimately show ?thesis
    by (simp add: bestfit_common_session)
qed

text \<open>
  C4 (as the code has it). With relocation enabled the full-soul search succeeds exactly
  when the caster owns a gem whose capacity lies between the tier of the soul and the last
  tier searched and whose contained soul size is below the bound, or when the move of a
  black soul out of a dual gem applies. The bound on the contained size is the same at
  every tier: the size of the incoming soul when displacement is enabled (which is the
  tier's capacity minus one only at the soul's own tier), and Petty, that is only empty
  gems, when displacement is disabled.
\<close>

theorem trapFullSoul_relocation_range:
  assumes "AllowSoulRelocation (config d)"
  shows "fst (trapFullSoul d) \<longleftrightarrow>
     (\<exists>c e. toSoulGemCapacity (soulSize (victim_value d)) \<le> c \<and>
         c \<le> maxSoulCapacityToSearch d \<and>
         e < (if AllowSoulDisplacement (config d) then soulSize (victim_value d)
              else SoulSize_Petty) \<and>
         ownsGemWith d c e) \<or>
     (AllowSoulDisplacement (config d) \<and>
      (AllowPartiallyFillingSoulGems (config d) \<or>
       soulSize (victim_value d) = SoulSize_Grand) \<and>
      ownsGemWith d SoulGemCapacity_Dual SoulSize_Black \<and>
      ownsGemWith d SoulGemCapacity_Black SoulSize_None)"
proof -
  let ?order = "tiers_then_contained
      [toSoulGemCapacity (soulSize (victim_value d))..<Suc (maxSoulCapacityToSearch d)]
      (\<lambda>c. maxContainedSoulSizeToSearch d)"
  have "(find (ownsPair d) ?order \<noteq> None) \<longleftrightarrow>
      (\<exists>c e. toSoulGemCapacity (soulSize (victim_value d)) \<le> c \<and>
         c \<le> maxSoulCapacityToSearch d \<and>
         e < (if AllowSoulDisplacement (config d) then soulSize (victim_value d)
              else SoulSize_Petty) \<and>
         ownsGemWith d c e)"
    unfolding find_None_iff set_tiers_then_contained ownsPair_def maxContainedSoulSizeToSearch_def
    by (simp only: set_upt mem_Collect_eq atLeastLessThan_iff less_Suc_eq_le) auto
  with assms show ?thesis
    by (cases "find (ownsPair d) ?order")
       (auto simp: trapFullSoul_find simp del: upt_Suc)
qed

lemma lesser_session:
  defines "d0 \<equiv> example_session bestfit_config 2 [(TESSoulGem 4 5 3, 1, [])]"
  shows "AllowSoulRelocation (config d0)" "AllowSoulDisplacement (config d0)"
    "AllowPartiallyFillingSoulGems (config d0)"
    "soulSize (victim_value d0) = SoulSize_Lesser"
    "toSoulGemCapacity (soulSize (victim_value d0)) = 2"
    "maxSoulCapacityToSearch d0 = SoulGemCapacity_LastWhite"
    "ownsGemWith d0 c e = (c = 5 \<and> e = 3)"
  by (auto simp add: d0_def example_defs session_defs bestfit_config_def search_defs
      maxSoulCapacityToSearch_def split: if_splits)

lemma bestfit_common_soulSize:
  "soulSize (victim_value (example_session bestfit_config 3
       [(TESSoulGem 2 3 0, 1, []), (TESSoulGem 2 3 2, 1, [])])) = SoulSize_Common"
  by (simp add: example_defs session_defs bestfit_config_def victim_value_def)

theorem trapFullSoul_relocation_range_witness:
  "\<not> fst (trapFullSoul (example_session bestfit_config 2 [(TESSoulGem 4 5 3, 1, [])])) \<and>
   fst (trapFullSoul (example_session bestfit_config 3
       [(TESSoulGem 2 3 0, 1, []), (TESSoulGem 2 3 2, 1, [])]))"
proof -
  let ?d2 = "example_session bestfit_config 2 [(TESSoulGem 4 5 3, 1, [])]"
  let ?d3 = "example_session bestfit_config 3
       [(TESSoulGem 2 3 0, 1, []), (TESSoulGem 2 3 2, 1, [])]"
  have "\<not> fst (trapFullSoul ?d2)"
    unfolding trapFullSoul_relocation_range[OF lesser_session(1)]
    by (simp add: lesser_session)
  moreover have "fst (trapFullSoul ?d3)"
    unfolding trapFullSoul_relocation_range[OF bestfit_common_session(1)]
    by (rule disjI1, rule exI[of _ 3], rule exI[of _ 0])
       (simp add: bestfit_common_session bestfit_common_soulSize SoulGemCapacity_LastWhite_def
          toSoulGemCapacity_def)
  ultimately show ?thesis by simp
qed

text \<open>
  The wording of the specification does not hold here: a Lesser soul is searched for with relocation, partial
  filling and displacement enabled; the Grand tier is visited and the caster owns a Grand
  gem holding a Common soul, which is within empty .. capacity minus one, yet the search
  does not find it.
\<close>

theorem inner_range_counterexample:
  "AllowSoulRelocation (config (example_session bestfit_config 2 [(TESSoulGem 4 5 3, 1, [])])) \<and>
   AllowSoulDisplacement (config (example_session bestfit_config 2 [(TESSoulGem 4 5 3, 1, [])])) \<and>
   toSoulGemCapacity (soulSize (victim_value
      (example_session bestfit_config 2 [(TESSoulGem 4 5 3, 1, [])]))) \<le> SoulGemCapacity_Grand \<and>
   SoulGemCapacity_Grand \<le>
      maxSoulCapacityToSearch (example_session bestfit_config 2 [(TESSoulGem 4 5 3, 1, [])]) \<and>
   ownsGemWith (example_session bestfit_config 2 [(TESSoulGem 4 5 3, 1, [])])
      SoulGemCapacity_Grand SoulSize_Common \<and>
   SoulSize_Common \<le> SoulGemCapacity_Grand - 1 \<and>
   \<not> fst (trapFullSoul (example_session bestfit_config 2 [(TESSoulGem 4 5 3, 1, [])]))"
proof -
  let ?d = "example_session bestfit_config 2 [(TESSoulGem 4 5 3, 1, [])]"
  have "find (ownsPair ?d)
          (tiers_then_contained
             [toSoulGemCapacity (soulSize (victim_value ?d))..<Suc (maxSoulCapacityToSearch ?d)]
             (\<lambda>c. maxContainedSoulSizeToSearch ?d)) = None"
    unfolding find_None_iff set_tiers_then_contained ownsPair_def maxContainedSoulSizeToSearch_def
    by (simp add: lesser_session)
  then have "trapFullSoul ?d = (False, ?d)"
    by (simp add: trapFullSoul_find lesser_session del: upt_Suc)
  then show ?thesis
    by (simp add: lesser_session SoulGemCapacity_LastWhite_def toSoulGemCapacity_def)
qed

section \<open>A black soul and one empty dual gem\<close>

lemma findFirstOwnedObjectInList_single:
  assumes "x \<in> set src"
  shows "findFirstOwnedObjectInList [(x, 1, es)] src =
           Some \<lparr>soulGem = x, itemCount = 1, entryData = es\<rparr>"
  using assms by (induction src) auto

lemma ownsGemWith_single:
  assumes "inventoryMap d = [(TESSoulGem g c e, 1, es)]"
  shows "ownsGemWith d c' e' =
           (TESSoulGem g c e \<in> set (getSoulGemsWith (soulGemMap (host d)) c' e'))"
  using assms by (auto simp: ownsGemWith_def list_ex_iff owned_def split: if_splits)

lemma getSoulGemsWith_mem:
  "TESSoulGem g c e \<in> set (getSoulGemsWith m c' e') \<longleftrightarrow>
     validContainedSize c' e' \<and> (g, c) \<in> set m \<and> c' = c \<and> e' = e"
  by (auto simp: getSoulGemsWith_def)

lemma black_dual_body:
  assumes inv: "inventory (actors (host d) (caster d)) =
        [(TESSoulGem g SoulGemCapacity_Dual SoulSize_None, 1, [])]"
    and cat: "(g, SoulGemCapacity_Dual) \<in> set (soulGemMap (host d))"
    and q: "victims d = [t]" "soulSize t = SoulSize_Black"
    and dirty: "isInventoryMapDirty d"
  shows "\<exists>d'. trapSoul_body ok d = (Continue, True, d') \<and> victims d' = [] \<and>
           inventory (actors (host d') (caster d)) =
             [(TESSoulGem g SoulGemCapacity_Dual SoulSize_None, 0, []),
              (TESSoulGem g SoulGemCapacity_Dual SoulSize_Black, 1, [])]"
proof -
  define d1 where "d1 = logProcessing (updateLoopVariables d)"
  have d1: "victim_value d1 = t" "victims d1 = []"
    "inventoryMap d1 = [(TESSoulGem g SoulGemCapacity_Dual SoulSize_None, 1, [])]"
    "casterInventoryStatus d1 = HasSoulGemsToFill" "soulGemMap (host d1) = soulGemMap (host d)"
    "caster d1 = caster d" "config d1 = config d"
    "actors (host d1) = actors (host d)"
    using inv q dirty
    by (simp_all add: d1_def logProcessing_def updateLoopVariables_def resetInventoryData_def
        getInventoryFor_def GetMaximumCapacity_def GetContainedSoul_def Let_def
        victim_value_def)
  have noblack: "\<not> ownsGemWith d1 SoulGemCapacity_Black SoulSize_None"
    by (simp add: ownsGemWith_single[OF d1(3)] getSoulGemsWith_mem)
  have dual: "ownsGemWith d1 SoulGemCapacity_Dual SoulSize_None"
    using cat by (simp add: ownsGemWith_single[OF d1(3)] getSoulGemsWith_mem d1
        validContainedSize_def)
  have range: "[0..<(if AllowSoulDisplacement (config d1) then SoulSize_Black
                     else SoulSize_Petty)] =
      0 # [Suc 0..<(if AllowSoulDisplacement (config d1) then SoulSize_Black
                     else SoulSize_Petty)]"
    by (simp add: upt_conv_Cons)
  have black: "trapBlackSoul d1 = (True, placed_black 0 d1)"
    unfolding trapBlackSoul_find using noblack dual
    by (simp only: range find.simps if_False if_True option.case)
  have mem: "TESSoulGem g SoulGemCapacity_Dual SoulSize_None
      \<in> set (getSoulGemsWith (soulGemMap (host d)) SoulGemCapacity_Dual SoulSize_None)"
    using cat by (simp add: getSoulGemsWith_mem validContainedSize_def)
  have fill: "filled SoulGemCapacity_Dual SoulSize_None (soulSize t) d1 =
      replaceSoulGem (TESSoulGem g SoulGemCapacity_Dual SoulSize_Black)
        (TESSoulGem g SoulGemCapacity_Dual SoulSize_None) [] d1"
    by (simp add: filled_def fillSoulGem_def d1 q findFirstOwnedObjectInList_single[OF mem]
        soulGemAt_def)
  have placed: "victims (placed_black 0 d1) = []"
    "inventory (actors (host (placed_black 0 d1)) (caster d)) =
       [(TESSoulGem g SoulGemCapacity_Dual SoulSize_None, 0, []),
        (TESSoulGem g SoulGemCapacity_Dual SoulSize_Black, 1, [])]"
    using inv
    by (simp_all add: placed_black_def fill notifySoulTrapSuccess_fields Let_def
        replaceSoulGem_def setInventoryHasChanged_def d1
        getFirstExtraDataList_def createExtraDataListFromOriginal_def
        AddObjectToContainer_def RemoveItem_def extraLists_of_def)
  have "trapSoul_body ok d = (Continue, True, placed_black 0 d1)"
    using black d1 q(2)
    by (simp add: trapSoul_body_def Let_def d1_def[symmetric])
  with placed show ?thesis by simp
qed


lemma trapSoul_loop_empty: "victims d = [] \<Longrightarrow> trapSoul_loop fuel ok d = Some (ok, d)"
  by (cases fuel) simp_all

lemma SoulTrapData_new_lock_guard:
  "caster (SoulTrapData_new c (lock_guard h)) = caster (SoulTrapData_new c h)"
  by (simp add: SoulTrapData_new_def lock_guard_def Let_def)

lemma trapSoul_black_dual:
  assumes alive: "\<not> IsDead (actors h c)" and dead: "IsDead (actors h v)"
    and black: "remainingSoulSize (actors h v) = SoulSize_Black"
    and inv: "inventory (actors h (caster (SoulTrapData_new c h))) =
        [(TESSoulGem g SoulGemCapacity_Dual SoulSize_None, 1, [])]"
    and cat: "(g, SoulGemCapacity_Dual) \<in> set (soulGemMap h)"
  shows "\<exists>h'. trapSoul (Suc fuel) (Some c) (Some v) h = Some (True, h') \<and>
           inventory (actors h' (caster (SoulTrapData_new c h))) =
             [(TESSoulGem g SoulGemCapacity_Dual SoulSize_None, 0, []),
              (TESSoulGem g SoulGemCapacity_Dual SoulSize_Black, 1, [])]"
proof -
  define d0 where
    "d0 = emplaceVictim (Victim_actor (lock_guard h) v) (SoulTrapData_new c (lock_guard h))"
  have cc: "caster d0 = caster (SoulTrapData_new c h)"
    by (simp add: d0_def emplaceVictim_def SoulTrapData_new_lock_guard)
  have d0: "host d0 = lock_guard h" "isInventoryMapDirty d0"
    "victims d0 = [Victim_actor (lock_guard h) v]"
    by (simp_all add: d0_def emplaceVictim_def emplace_def SoulTrapData_new_def Let_def)
  have size: "soulSize (Victim_actor (lock_guard h) v) = SoulSize_Black"
    using black by (simp add: Victim_actor_def lock_guard_def)
  have inv0: "inventory (actors (host d0) (caster d0)) =
        [(TESSoulGem g SoulGemCapacity_Dual SoulSize_None, 1, [])]"
    using inv by (simp add: cc d0 lock_guard_def)
  have cat0: "(g, SoulGemCapacity_Dual) \<in> set (soulGemMap (host d0))"
    using cat by (simp add: d0 lock_guard_def)
  from black_dual_body[OF inv0 cat0 d0(3) size d0(2), of False]
  obtain d' where d': "trapSoul_body False d0 = (Continue, True, d')" "victims d' = []"
    "inventory (actors (host d') (caster d0)) =
       [(TESSoulGem g SoulGemCapacity_Dual SoulSize_None, 0, []),
        (TESSoulGem g SoulGemCapacity_Dual SoulSize_Black, 1, [])]"
    by blast
  have loop: "trapSoul_loop (Suc fuel) False d0 = Some (True, d')"
    using d' d0(3) by (simp add: trapSoul_loop_empty)
  have fin: "inventory (actors (lock_guard_exit (host (trapSoul_finish v True d')))
                 (caster d0)) =
       [(TESSoulGem g SoulGemCapacity_Dual SoulSize_None, 0, []),
        (TESSoulGem g SoulGemCapacity_Dual SoulSize_Black, 1, [])]"
    using d'(3) by (auto simp: trapSoul_finish_def lock_guard_exit_def)
  have "trapSoul (Suc fuel) (Some c) (Some v) h =
      Some (True, TrapSoulWrapper_exit (lock_guard_exit (host (trapSoul_finish v True d'))))"
    using alive dead black loop
    by (simp add: trapSoul_def Let_def getRemainingSoulLevelValue_def lock_guard_def
        d0_def[unfolded lock_guard_def, symmetric])
  with fin show ?thesis
    by (simp add: TrapSoulWrapper_exit_frame cc)
qed


lemma dual_only_host_facts:
  "\<not> IsDead (actors (dual_only_host b) 0)" "IsDead (actors (dual_only_host b) (Suc 0))"
  "remainingSoulSize (actors (dual_only_host b) (Suc 0)) = SoulSize_Black"
  "caster (SoulTrapData_new 0 (dual_only_host b)) = 0"
  "inventory (actors (dual_only_host b) 0) =
     [(TESSoulGem 5 SoulGemCapacity_Dual SoulSize_None, 1, [])]"
  "(5, SoulGemCapacity_Dual) \<in> set (soulGemMap (dual_only_host b))"
  "AllowSoulDisplacement (globalConfig (dual_only_host b)) = b"
  by (simp_all add: dual_only_host_def example_defs SoulTrapData_new_def)

text \<open>
  C1 (as the code has it). The victim carries a black soul; the effective caster owns
  exactly one soul gem, an empty dual gem known to the soul gem map, and so no black gem.
  Then \<open>trapSoul\<close> succeeds whatever the displacement setting is, and the black soul fills
  the dual gem: the empty dual gem is gone from the inventory and its black-filled kind
  is there once. In general the black-soul strategy succeeds exactly when an empty black
  gem is owned, or a dual gem whose contained soul size is below Black when displacement
  is enabled and below Petty (that is, empty) when it is disabled: empty dual gems are
  always scanned, filled ones only with displacement.
\<close>

theorem trapSoul_black_into_empty_dual:
  "(\<not> IsDead (actors h c) \<and> IsDead (actors h v) \<and>
    remainingSoulSize (actors h v) = SoulSize_Black \<and>
    inventory (actors h (caster (SoulTrapData_new c h))) =
      [(TESSoulGem g SoulGemCapacity_Dual SoulSize_None, 1, [])] \<and>
    (g, SoulGemCapacity_Dual) \<in> set (soulGemMap h) \<longrightarrow>
    (\<exists>h'. trapSoul (Suc fuel) (Some c) (Some v) h = Some (True, h') \<and>
       inventory (actors h' (caster (SoulTrapData_new c h))) =
         [(TESSoulGem g SoulGemCapacity_Dual SoulSize_None, 0, []),
          (TESSoulGem g SoulGemCapacity_Dual SoulSize_Black, 1, [])])) \<and>
   (fst (trapBlackSoul d) \<longleftrightarrow>
      ownsGemWith d SoulGemCapacity_Black SoulSize_None \<or>
      (\<exists>e. e < (if AllowSoulDisplacement (config d) then SoulSize_Black else SoulSize_Petty) \<and>
           ownsGemWith d SoulGemCapacity_Dual e))"
proof (intro conjI impI)
  assume "\<not> IsDead (actors h c) \<and> IsDead (actors h v) \<and>
    remainingSoulSize (actors h v) = SoulSize_Black \<and>
    inventory (actors h (caster (SoulTrapData_new c h))) =
      [(TESSoulGem g SoulGemCapacity_Dual SoulSize_None, 1, [])] \<and>
    (g, SoulGemCapacity_Dual) \<in> set (soulGemMap h)"
  then show "\<exists>h'. trapSoul (Suc fuel) (Some c) (Some v) h = Some (True, h') \<and>
       inventory (actors h' (caster (SoulTrapData_new c h))) =
         [(TESSoulGem g SoulGemCapacity_Dual SoulSize_None, 0, []),
          (TESSoulGem g SoulGemCapacity_Dual SoulSize_Black, 1, [])]"
    using trapSoul_black_dual[of h c v g fuel] by blast
next
  show "fst (trapBlackSoul d) \<longleftrightarrow>
      ownsGemWith d SoulGemCapacity_Black SoulSize_None \<or>
      (\<exists>e. e < (if AllowSoulDisplacement (config d) then SoulSize_Black else SoulSize_Petty) \<and>
           ownsGemWith d SoulGemCapacity_Dual e)"
  proof (cases "find (ownsGemWith d SoulGemCapacity_Dual)
                  [0..<(if AllowSoulDisplacement (config d) then SoulSize_Black
                        else SoulSize_Petty)]")
    case None
    then have "\<forall>e. e < (if AllowSoulDisplacement (config d) then SoulSize_Black
                         else SoulSize_Petty) \<longrightarrow> \<not> ownsGemWith d SoulGemCapacity_Dual e"
      by (simp add: find_upt_None)
    with None show ?thesis
      by (auto simp: trapBlackSoul_find)
  next
    case (Some e)
    from find_upt_Some[OF Some] Some show ?thesis
      by (auto simp: trapBlackSoul_find)
  qed
qed

theorem trapSoul_black_into_empty_dual_witness:
  "(\<exists>h'. trapSoul (Suc 0) (Some 0) (Some (Suc 0)) (dual_only_host False) = Some (True, h') \<and>
      inventory (actors h' 0) =
        [(TESSoulGem 5 SoulGemCapacity_Dual SoulSize_None, 0, []),
         (TESSoulGem 5 SoulGemCapacity_Dual SoulSize_Black, 1, [])]) \<and>
   (\<exists>h'. trapSoul (Suc 0) (Some 0) (Some (Suc 0)) (dual_only_host True) = Some (True, h') \<and>
      inventory (actors h' 0) =
        [(TESSoulGem 5 SoulGemCapacity_Dual SoulSize_None, 0, []),
         (TESSoulGem 5 SoulGemCapacity_Dual SoulSize_Black, 1, [])])"
  using trapSoul_black_into_empty_dual[of "dual_only_host False" 0 "Suc 0" 5 0]
    trapSoul_black_into_empty_dual[of "dual_only_host True" 0 "Suc 0" 5 0]
    dual_only_host_facts[of False] dual_only_host_facts[of True]
  by metis

text \<open>
  The wording of the specification does not hold here: with displacement disabled the call does not fail. It
  returns true and the empty dual gem has been replaced by its black-filled kind.
\<close>

theorem black_dual_displacement_disabled_counterexample:
  "\<not> AllowSoulDisplacement (globalConfig (dual_only_host False)) \<and>
   returned (trapSoul (Suc 0) (Some 0) (Some (Suc 0)) (dual_only_host False)) = Some True \<and>
   inventoryAfter 0 (trapSoul (Suc 0) (Some 0) (Some (Suc 0)) (dual_only_host False)) =
     Some [(TESSoulGem 5 SoulGemCapacity_Dual SoulSize_None, 0, []),
           (TESSoulGem 5 SoulGemCapacity_Dual SoulSize_Black, 1, [])]"
proof -
  from trapSoul_black_dual[OF dual_only_host_facts(1,2,3), of False 5 0]
    dual_only_host_facts(4,5,6)[of False]
  obtain h' where
    "trapSoul (Suc 0) (Some 0) (Some (Suc 0)) (dual_only_host False) = Some (True, h')"
    "inventory (actors h' 0) =
       [(TESSoulGem 5 SoulGemCapacity_Dual SoulSize_None, 0, []),
        (TESSoulGem 5 SoulGemCapacity_Dual SoulSize_Black, 1, [])]"
    by auto
  then show ?thesis
    by (simp add: dual_only_host_facts returned_def inventoryAfter_def)
qed

section \<open>Splitting\<close>

lemma updateLoopVariables_Cons:
  assumes "victims d = x # xs"
  shows "victim (updateLoopVariables d) = Some (top_from x xs)"
    "victims (updateLoopVariables d) = remove1 (top_from x xs) (x # xs)"
    "host (updateLoopVariables d) = host d"
    "config (updateLoopVariables d) = config d"
    "caster (updateLoopVariables d) = caster d"
    "notifyCount (updateLoopVariables d) = notifyCount d"
    "isStatIncremented (updateLoopVariables d) = isStatIncremented d"
    "\<not> isInventoryMapDirty (updateLoopVariables d)"
  using assms
  by (simp_all add: updateLoopVariables_def resetInventoryData_def Let_def)

lemma logProcessing_fields:
  "victim (logProcessing d) = victim d" "victims (logProcessing d) = victims d"
  "config (logProcessing d) = config d" "caster (logProcessing d) = caster d"
  "inventoryMap (logProcessing d) = inventoryMap d"
  "casterInventoryStatus (logProcessing d) = casterInventoryStatus d"
  "isInventoryMapDirty (logProcessing d) = isInventoryMapDirty d"
  "notifyCount (logProcessing d) = notifyCount d"
  "isStatIncremented (logProcessing d) = isStatIncremented d"
  "victim_value (logProcessing d) = victim_value d"
  "host (logProcessing d) = (host d)\<lparr>processedLog := processedLog (host d) @ [victim_value d]\<rparr>"
  by (simp_all add: logProcessing_def victim_value_def)

text \<open>
  C10. Splitting a Petty soul, or a black soul, adds nothing to the queue. In the loop
  body, when the soul taken from the queue is a Petty split soul that cannot be placed,
  the body continues with the success flag unchanged and with the session as it was
  right after the soul was taken out and announced: the soul is gone from the queue,
  nothing was added to it, and the host differs only by the entry in the log of
  processed victims (no inventory change, no notification). The same holds for a black
  soul that cannot be placed: it is never split.
\<close>

theorem petty_and_black_souls_not_split:
  "(soulSize v = SoulSize_Petty \<or> soulSize v = SoulSize_Black \<longrightarrow> splitSoul v q = q) \<and>
   (victims d = x # xs \<and> t = top_from x xs \<and> d1 = logProcessing (updateLoopVariables d) \<and>
    casterInventoryStatus d1 = HasSoulGemsToFill \<and>
    ((isSplitSoul t \<and> soulSize t = SoulSize_Petty \<and> \<not> fst (trapSplitSoul d1)) \<or>
     (soulSize t = SoulSize_Black \<and> \<not> fst (trapBlackSoul d1))) \<longrightarrow>
    trapSoul_body ok d = (Continue, ok, d1) \<and>
    victims d1 = remove1 t (x # xs) \<and>
    host d1 = (host d)\<lparr>processedLog := processedLog (host d) @ [t]\<rparr>)"
proof (rule conjI; rule impI)
  assume "soulSize v = SoulSize_Petty \<or> soulSize v = SoulSize_Black"
  then show "splitSoul v q = q"
    by (auto simp: splitSoul_def)
next
  assume a: "victims d = x # xs \<and> t = top_from x xs \<and>
    d1 = logProcessing (updateLoopVariables d) \<and>
    casterInventoryStatus d1 = HasSoulGemsToFill \<and>
    ((isSplitSoul t \<and> soulSize t = SoulSize_Petty \<and> \<not> fst (trapSplitSoul d1)) \<or>
     (soulSize t = SoulSize_Black \<and> \<not> fst (trapBlackSoul d1)))"
  then have q: "victims d = x # xs" and d1: "d1 = logProcessing (updateLoopVariables d)"
    and t: "t = top_from x xs" and st: "casterInventoryStatus d1 = HasSoulGemsToFill"
    by blast+
  have v: "victim_value d1 = t" "victims d1 = remove1 t (x # xs)"
    "host d1 = (host d)\<lparr>processedLog := processedLog (host d) @ [t]\<rparr>"
    by (simp_all add: d1 t logProcessing_fields updateLoopVariables_Cons[OF q] victim_value_def)
  from a consider
    (petty) "isSplitSoul t" "soulSize t = SoulSize_Petty" "\<not> fst (trapSplitSoul d1)"
    | (black) "soulSize t = SoulSize_Black" "\<not> fst (trapBlackSoul d1)"
    by blast
  then have "trapSoul_body ok d = (Continue, ok, d1)"
  proof cases
    case petty
    from petty(3) have "trapSplitSoul d1 = (False, d1)"
      using trapSplitSoul_False[of d1] by (cases "trapSplitSoul d1") auto
    with petty(1,2) st v show ?thesis
      by (simp add: trapSoul_body_def Let_def d1[symmetric] splitSoul_def)
  next
    case black
    from black(2) have "trapBlackSoul d1 = (False, d1)"
      using trapBlackSoul_False[of d1] by (cases "trapBlackSoul d1") auto
    with black(1) st v show ?thesis
      by (simp add: trapSoul_body_def Let_def d1[symmetric])
  qed
  with v show "trapSoul_body ok d = (Continue, ok, d1) \<and>
    victims d1 = remove1 t (x # xs) \<and>
    host d1 = (host d)\<lparr>processedLog := processedLog (host d) @ [t]\<rparr>"
    by simp
qed

lemma black_gem_session_facts:
  "victims (black_gem_session q) = q"
  "\<not> isInventoryMapDirty (black_gem_session q)"
  "casterInventoryStatus (black_gem_session q) = HasSoulGemsToFill"
  "config (black_gem_session q) = split_config"
  "ownsGemWith (black_gem_session q) c e = (c = SoulGemCapacity_Black \<and> e = SoulSize_None)"
  by (auto simp: black_gem_session_def example_defs session_defs split_config_def search_defs
      split: if_splits)

theorem petty_and_black_souls_not_split_witness:
  "trapSoul_body False (black_gem_session [Victim_split (Some (Suc 0)) (Suc 0)]) =
     (Continue, False,
      logProcessing (updateLoopVariables (black_gem_session [Victim_split (Some (Suc 0)) (Suc 0)]))) \<and>
   victims (logProcessing (updateLoopVariables
      (black_gem_session [Victim_split (Some (Suc 0)) (Suc 0)]))) = []"
proof -
  let ?t = "Victim_split (Some (Suc 0)) (Suc 0)"
  let ?d = "black_gem_session [?t]"
  let ?d1 = "logProcessing (updateLoopVariables ?d)"
  have upd: "updateLoopVariables ?d = ?d\<lparr>victim := Some ?t, victims := []\<rparr>"
    by (simp add: updateLoopVariables_def black_gem_session_facts Let_def)
  have t: "isSplitSoul ?t" "soulSize ?t = Suc 0"
    by (simp_all add: Victim_split_def)
  have owns: "\<And>c e. ownsGemWith ?d1 c e = ownsGemWith ?d c e"
    by (simp add: ownsGemWith_def logProcessing_def upd)
  have st: "casterInventoryStatus ?d1 = HasSoulGemsToFill"
    by (simp add: logProcessing_fields upd black_gem_session_facts)
  have vv: "victim_value ?d1 = ?t"
    by (simp add: logProcessing_fields upd victim_value_def)
  have "find (ownsGemWith ?d1 (toSoulGemCapacity (soulSize (victim_value ?d1))))
          [0..<maxContainedSoulSizeToSearch ?d1] = None"
    unfolding find_None_iff
    by (simp add: owns black_gem_session_facts vv t toSoulGemCapacity_def)
  then have fail: "\<not> fst (trapSplitSoul ?d1)"
    by (simp add: trapSplitSoul_find)
  from petty_and_black_souls_not_split[of ?t "[]" ?d ?t "[]" ?t ?d1 False] t fail st
  show ?thesis
    by (simp add: black_gem_session_facts)
qed

section \<open>Splitting a Grand soul when nothing can be placed\<close>

lemma top_from_mem: "top_from x xs \<in> set (x # xs)"
  by (induction xs arbitrary: x) auto

lemma splitSoul_sizes:
  "\<forall>y\<in>set q. soulSize y \<le> SoulSize_Grand \<Longrightarrow>
   \<forall>y\<in>set (splitSoul t q). soulSize y \<le> SoulSize_Grand"
  by (auto simp: splitSoul_def emplace_def Victim_split_def)

lemma nothing_placeable_body:
  assumes np: "nothing_placeable d" and q: "victims d = x # xs"
    and t: "t = top_from x xs" and white: "soulSize t \<le> SoulSize_Grand"
  defines "d' \<equiv> (logProcessing (updateLoopVariables d))
                   \<lparr>victims := splitSoul t (remove1 t (x # xs))\<rparr>"
  shows "trapSoul_body ok d = (Continue, ok, d')" "nothing_placeable d'"
    "host d' = (host d)\<lparr>processedLog := processedLog (host d) @ [t]\<rparr>"
    "victims d' = splitSoul t (remove1 t (x # xs))"
    "config d' = config d" "caster d' = caster d" "notifyCount d' = notifyCount d"
    "casterInventoryStatus d' = HasSoulGemsToFill"
proof -
  define d1 where "d1 = logProcessing (updateLoopVariables d)"
  have upd: "inventoryMap (updateLoopVariables d) = getInventoryFor (host d) (caster d)"
    "casterInventoryStatus (updateLoopVariables d) = HasSoulGemsToFill"
    using np q
    by (auto simp: nothing_placeable_def updateLoopVariables_def resetInventoryData_def Let_def)
  have d1: "victim_value d1 = t" "victims d1 = remove1 t (x # xs)"
    "host d1 = (host d)\<lparr>processedLog := processedLog (host d) @ [t]\<rparr>"
    "config d1 = config d" "caster d1 = caster d" "notifyCount d1 = notifyCount d"
    "casterInventoryStatus d1 = HasSoulGemsToFill"
    "inventoryMap d1 = getInventoryFor (host d) (caster d)"
    "\<not> isInventoryMapDirty d1"
    by (simp_all add: d1_def t logProcessing_fields updateLoopVariables_Cons[OF q] upd
        victim_value_def)
  have owns: "\<And>c e. c \<noteq> SoulGemCapacity_Black \<Longrightarrow> \<not> ownsGemWith d1 c e"
    using np by (simp add: ownsGemWith_def d1 nothing_placeable_def)
  have tech: "soulShrinkingTechnique (config d1) = Split"
    using np by (simp add: d1 nothing_placeable_def)
  have natural: "toSoulGemCapacity (soulSize t) \<noteq> SoulGemCapacity_Black"
    using white by (simp add: toSoulGemCapacity_def)
  have split: "trapSplitSoul d1 = (False, d1)"
    using natural owns by (simp add: trapSplitSoul_find d1 find_None_iff[THEN iffD2])
  have "find (ownsPair d1)
          (tiers_then_contained
             [toSoulGemCapacity (soulSize (victim_value d1))..<Suc (maxSoulCapacityToSearch d1)]
             (\<lambda>c. maxContainedSoulSizeToSearch d1)) = None"
    unfolding find_None_iff set_tiers_then_contained ownsPair_def
    using white owns
    by (auto simp: d1 maxSoulCapacityToSearch_def SoulGemCapacity_LastWhite_def
        toSoulGemCapacity_def split: if_splits simp del: upt_Suc)
  moreover have "find (ownsPair d1)
          (contained_then_tiers [0..<maxContainedSoulSizeToSearch d1]
             [toSoulGemCapacity (soulSize (victim_value d1))..<Suc (maxSoulCapacityToSearch d1)])
          = None"
    unfolding find_None_iff contained_then_tiers_def ownsPair_def
    using white owns
    by (auto simp: d1 maxSoulCapacityToSearch_def SoulGemCapacity_LastWhite_def
        toSoulGemCapacity_def split: if_splits simp del: upt_Suc)
  ultimately have full: "trapFullSoul d1 = (False, d1)"
    using owns[of SoulGemCapacity_Dual SoulSize_Black]
    by (simp add: trapFullSoul_find del: upt_Suc)
  have black: "soulSize (victim_value d1) \<noteq> SoulSize_Black"
    using white by (simp add: d1)
  show "trapSoul_body ok d = (Continue, ok, d')"
    using split full tech black
    by (simp add: trapSoul_body_def Let_def d1_def[symmetric] d'_def d1)
  show "host d' = (host d)\<lparr>processedLog := processedLog (host d) @ [t]\<rparr>"
    "victims d' = splitSoul t (remove1 t (x # xs))"
    "config d' = config d" "caster d' = caster d" "notifyCount d' = notifyCount d"
    "casterInventoryStatus d' = HasSoulGemsToFill"
    by (simp_all add: d'_def d1_def[symmetric] d1)
  show "nothing_placeable d'"
    using np
    by (simp add: nothing_placeable_def d'_def d1_def[symmetric] d1 getInventoryFor_def)
qed

lemma split_loop:
  "nothing_placeable d \<Longrightarrow> \<forall>y\<in>set (victims d). soulSize y \<le> SoulSize_Grand \<Longrightarrow>
   split_run fuel (victims d) = Some log \<Longrightarrow>
     \<exists>d'. trapSoul_loop fuel ok d = Some (ok, d') \<and>
       host d' = (host d)\<lparr>processedLog := processedLog (host d) @ log\<rparr> \<and>
       config d' = config d \<and> caster d' = caster d \<and> notifyCount d' = notifyCount d \<and>
       (log \<noteq> [] \<longrightarrow> casterInventoryStatus d' = HasSoulGemsToFill)"
proof (induction fuel arbitrary: d log)
  case 0
  then show ?case by (cases "victims d") simp_all
next
  case (Suc fuel)
  show ?case
  proof (cases "victims d")
    case Nil
    with Suc.prems show ?thesis by simp
  next
    case (Cons x xs)
    define t where "t = top_from x xs"
    define d1 where "d1 = (logProcessing (updateLoopVariables d))
                   \<lparr>victims := splitSoul t (remove1 t (x # xs))\<rparr>"
    have white: "soulSize t \<le> SoulSize_Grand"
      using Suc.prems(2) top_from_mem[of x xs] unfolding t_def Cons by blast
    note body = nothing_placeable_body[OF Suc.prems(1) Cons t_def white, folded d1_def]
    from Suc.prems(3) obtain log' where log':
      "split_run fuel (victims d1) = Some log'" "log = t # log'"
      by (auto simp: Cons Let_def t_def[symmetric] body(4))
    have sizes: "\<forall>y\<in>set (victims d1). soulSize y \<le> SoulSize_Grand"
      unfolding body(4) using Suc.prems(2)
      by (intro splitSoul_sizes) (auto simp: Cons dest: notin_set_remove1)
    from Suc.IH[OF body(2) sizes log'(1)] obtain d' where d':
      "trapSoul_loop fuel ok d1 = Some (ok, d')"
      "host d' = (host d1)\<lparr>processedLog := processedLog (host d1) @ log'\<rparr>"
      "config d' = config d1" "caster d' = caster d1" "notifyCount d' = notifyCount d1"
      "log' \<noteq> [] \<longrightarrow> casterInventoryStatus d' = HasSoulGemsToFill"
      by blast
    have "trapSoul_loop (Suc fuel) ok d = Some (ok, d')"
      using d'(1) body(1) by (simp add: Cons)
    moreover have "casterInventoryStatus d' = HasSoulGemsToFill"
    proof (cases "log' = []")
      case True
      then have "victims d1 = []" using log'(1)
        by (cases "victims d1"; cases fuel) (auto simp: Let_def)
      then have "d' = d1" using d'(1) by (simp add: trapSoul_loop_empty)
      then show ?thesis by (simp add: body(8))
    next
      case False
      with d'(6) show ?thesis by simp
    qed
    ultimately show ?thesis
      using d' body by (simp add: log'(2))
  qed
qed


lemma split_run_mono: "split_run n q = Some l \<Longrightarrow> split_run (n + k) q = Some l"
proof (induction n arbitrary: q l)
  case 0
  then show ?case by (cases q) simp_all
next
  case (Suc n)
  then show ?case by (cases q) (auto simp: Let_def)
qed

lemma split_run_grand:
  "\<exists>log. split_run 23 [\<lparr>actor = a, soulSize = SoulSize_Grand, isSplitSoul = False\<rparr>] = Some log \<and>
     map soulSize log = [5, 4, 3, 3, 3, 2, 2, 2, 2, 2, 2, 1, 1, 1, 1, 1, 1, 1, 1, 1, 1, 1, 1]"
  by (simp add: eval_nat_numeral splitSoul_def emplace_def Victim_split_def Let_def)


lemma trapSoul_split_grand:
  assumes alive: "\<not> IsDead (actors h c)" and dead: "IsDead (actors h v)"
    and grand: "remainingSoulSize (actors h v) = SoulSize_Grand"
    and tech: "soulShrinkingTechnique (globalConfig h) = Split"
    and notfull: "\<exists>x\<in>set (inventory (actors h (caster (SoulTrapData_new c h)))).
        GetMaximumCapacity (fst x) \<noteq> GetContainedSoul (fst x)"
    and unusable: "\<forall>c' e. c' \<noteq> SoulGemCapacity_Black \<longrightarrow>
        (\<forall>g\<in>set (getSoulGemsWith (soulGemMap h) c' e).
           \<not> owned (inventory (actors h (caster (SoulTrapData_new c h)))) g)"
  shows "\<exists>h'. trapSoul (23 + k) (Some c) (Some v) h = Some (False, h') \<and>
           map soulSize (processedLog h') =
             map soulSize (processedLog h) @
               [5, 4, 3, 3, 3, 2, 2, 2, 2, 2, 2, 1, 1, 1, 1, 1, 1, 1, 1, 1, 1, 1, 1] \<and>
           actors h' = actors h"
proof -
  define d0 where
    "d0 = emplaceVictim (Victim_actor (lock_guard h) v) (SoulTrapData_new c (lock_guard h))"
  let ?inv = "inventory (actors h (caster (SoulTrapData_new c h)))"
  have cc: "caster d0 = caster (SoulTrapData_new c h)"
    by (simp add: d0_def emplaceVictim_def SoulTrapData_new_lock_guard)
  have d0: "host d0 = lock_guard h" "isInventoryMapDirty d0"
    "victims d0 = [\<lparr>actor = Some v, soulSize = SoulSize_Grand, isSplitSoul = False\<rparr>]"
    "config d0 = globalConfig h"
    using grand
    by (simp_all add: d0_def emplaceVictim_def emplace_def SoulTrapData_new_def Let_def
        Victim_actor_def lock_guard_def)
  have inv0: "getInventoryFor (host d0) (caster d0) = ?inv"
    by (simp add: getInventoryFor_def cc d0 lock_guard_def)
  from notfull obtain x where x: "x \<in> set ?inv"
    "\<not> (case x of (obj, ed) \<Rightarrow> GetMaximumCapacity obj = GetContainedSoul obj)"
    by (auto simp: case_prod_beta)
  then have len: "length (filter (\<lambda>(obj, ed). GetMaximumCapacity obj = GetContainedSoul obj)
        ?inv) < length ?inv"
    by (rule length_filter_less)
  have np: "nothing_placeable d0"
    unfolding nothing_placeable_def inv0
    using tech unusable len x(1)
    by (auto simp: d0 lock_guard_def list_ex_iff)
  from split_run_grand[of "Some v"] obtain log where log:
    "split_run 23 (victims d0) = Some log"
    "map soulSize log = [5, 4, 3, 3, 3, 2, 2, 2, 2, 2, 2, 1, 1, 1, 1, 1, 1, 1, 1, 1, 1, 1, 1]"
    by (auto simp: d0)
  have sizes: "\<forall>y\<in>set (victims d0). soulSize y \<le> SoulSize_Grand"
    by (simp add: d0)
  from split_loop[OF np sizes split_run_mono[OF log(1), of k], of False]
  obtain d' where d': "trapSoul_loop (23 + k) False d0 = Some (False, d')"
    "host d' = (host d0)\<lparr>processedLog := processedLog (host d0) @ log\<rparr>"
    "config d' = config d0" "log \<noteq> [] \<longrightarrow> casterInventoryStatus d' = HasSoulGemsToFill"
    by blast
  from log(2) have "log \<noteq> []" by auto
  with d'(4) have st: "casterInventoryStatus d' = HasSoulGemsToFill" by simp
  have fin: "actors (host (trapSoul_finish v False d')) = actors h"
    "processedLog (host (trapSoul_finish v False d')) = processedLog h @ log"
    using st tech
    by (simp_all add: trapSoul_finish_def notifySoulTrapFailure_def notify_def d' d0
        lock_guard_def)
  have "trapSoul (23 + k) (Some c) (Some v) h =
      Some (False, TrapSoulWrapper_exit (lock_guard_exit (host (trapSoul_finish v False d'))))"
    using alive dead grand d'(1)
    by (simp add: trapSoul_def Let_def getRemainingSoulLevelValue_def lock_guard_def
        d0_def[unfolded lock_guard_def, symmetric])
  with fin log(2) show ?thesis
    by (simp add: TrapSoulWrapper_exit_frame lock_guard_exit_def)
qed

text \<open>
  C2 (as the code has it). The technique is Split, the victim carries a Grand soul, and
  the effective caster owns soul gems that are not all full (so the loop does not stop at
  once) but none that the soul gem map lists under a capacity other than Black. Then with
  23 units of fuel or more the call returns false and changes no actor. The souls it
  processed are, in order, one Grand, one Greater, three Common, six Lesser and twelve
  Petty souls: four levels of splitting below the Grand soul, and twelve Petty leaves,
  since a Grand soul splits into a Greater and a Common one.
\<close>

theorem split_grand_soul_twelve_petty:
  assumes "\<not> IsDead (actors h c)" and "IsDead (actors h v)"
    and "remainingSoulSize (actors h v) = SoulSize_Grand"
    and "soulShrinkingTechnique (globalConfig h) = Split"
    and "\<exists>x\<in>set (inventory (actors h (caster (SoulTrapData_new c h)))).
        GetMaximumCapacity (fst x) \<noteq> GetContainedSoul (fst x)"
    and "\<forall>c' e. c' \<noteq> SoulGemCapacity_Black \<longrightarrow>
        (\<forall>g\<in>set (getSoulGemsWith (soulGemMap h) c' e).
           \<not> owned (inventory (actors h (caster (SoulTrapData_new c h)))) g)"
  shows "\<exists>h'. trapSoul (23 + k) (Some c) (Some v) h = Some (False, h') \<and>
           map soulSize (processedLog h') =
             map soulSize (processedLog h) @
               [SoulSize_Grand, SoulSize_Greater,
                SoulSize_Common, SoulSize_Common, SoulSize_Common,
                SoulSize_Lesser, SoulSize_Lesser, SoulSize_Lesser,
                SoulSize_Lesser, SoulSize_Lesser, SoulSize_Lesser,
                SoulSize_Petty, SoulSize_Petty, SoulSize_Petty, SoulSize_Petty,
                SoulSize_Petty, SoulSize_Petty, SoulSize_Petty, SoulSize_Petty,
                SoulSize_Petty, SoulSize_Petty, SoulSize_Petty, SoulSize_Petty] \<and>
           actors h' = actors h"
  using trapSoul_split_grand[OF assms] .

lemma black_gem_host_facts:
  "\<not> IsDead (actors black_gem_host 0)" "IsDead (actors black_gem_host (Suc 0))"
  "remainingSoulSize (actors black_gem_host (Suc 0)) = SoulSize_Grand"
  "soulShrinkingTechnique (globalConfig black_gem_host) = Split"
  "\<exists>x\<in>set (inventory (actors black_gem_host (caster (SoulTrapData_new 0 black_gem_host)))).
        GetMaximumCapacity (fst x) \<noteq> GetContainedSoul (fst x)"
  "\<forall>c' e. c' \<noteq> SoulGemCapacity_Black \<longrightarrow>
        (\<forall>g\<in>set (getSoulGemsWith (soulGemMap black_gem_host) c' e).
           \<not> owned (inventory (actors black_gem_host
                  (caster (SoulTrapData_new 0 black_gem_host)))) g)"
  "processedLog black_gem_host = []"
  by (auto simp: black_gem_host_def example_defs split_config_def SoulTrapData_new_def
      GetMaximumCapacity_def GetContainedSoul_def getSoulGemsWith_def owned_def
      split: if_splits)

theorem split_grand_soul_twelve_petty_witness:
  "\<exists>h'. trapSoul 23 (Some 0) (Some (Suc 0)) black_gem_host = Some (False, h') \<and>
     map soulSize (processedLog h') =
       [5, 4, 3, 3, 3, 2, 2, 2, 2, 2, 2, 1, 1, 1, 1, 1, 1, 1, 1, 1, 1, 1, 1]"
  using split_grand_soul_twelve_petty[OF black_gem_host_facts(1-6), of 0]
  by (auto simp: black_gem_host_facts(7))

text \<open>
  The wording of the specification does not hold here. With an unusable gem in the inventory the call processes
  twelve Petty souls, not sixteen. With no soul gem at all the loop stops at the first
  soul: only the Grand soul is processed and nothing is split.
\<close>

theorem sixteen_petty_counterexample:
  "returned (trapSoul 23 (Some 0) (Some (Suc 0)) black_gem_host) = Some False \<and>
   pettyCount (trapSoul 23 (Some 0) (Some (Suc 0)) black_gem_host) = Some 12 \<and>
   processedSizes (trapSoul 23 (Some 0) (Some (Suc 0))
      (example_host split_config SoulSize_Grand [])) = Some [SoulSize_Grand]"
proof -
  from trapSoul_split_grand[OF black_gem_host_facts(1-6), of 0]
  obtain h' where h': "trapSoul 23 (Some 0) (Some (Suc 0)) black_gem_host = Some (False, h')"
    "map soulSize (processedLog h') =
       [5, 4, 3, 3, 3, 2, 2, 2, 2, 2, 2, 1, 1, 1, 1, 1, 1, 1, 1, 1, 1, 1, 1]"
    by (auto simp: black_gem_host_facts(7))
  have "length (filter (\<lambda>v. soulSize v = SoulSize_Petty) (processedLog h')) =
      length (filter (\<lambda>s. s = SoulSize_Petty) (map soulSize (processedLog h')))"
    by (simp add: filter_map comp_def)
  also have "\<dots> = 12" by (simp add: h'(2))
  finally have "pettyCount (trapSoul 23 (Some 0) (Some (Suc 0)) black_gem_host) = Some 12"
    by (simp add: pettyCount_def h'(1))
  moreover have "processedSizes (trapSoul 23 (Some 0) (Some (Suc 0))
      (example_host split_config SoulSize_Grand [])) = Some [SoulSize_Grand]"
    by (simp add: processedSizes_def trapSoul_def trapSoul_loop.simps(2)[of 22, simplified]
        trapSoul_body_def logProcessing_def Let_def example_defs split_config_def session_defs
        lock_guard_def lock_guard_exit_def getRemainingSoulLevelValue_def
        TrapSoulWrapper_exit_def trapSoul_finish_def notifySoulTrapFailure_def notify_def
        victim_value_def)
  ultimately show ?thesis
    by (simp add: returned_def h'(1))
qed

section \<open>Properties kept by the whole loop\<close>

lemma preserves_loopD:
  "preserves_loop P \<Longrightarrow> preserves P"
  "preserves_loop P \<Longrightarrow> P d \<Longrightarrow> P (updateLoopVariables d)"
  "preserves_loop P \<Longrightarrow> P d \<Longrightarrow> P (logProcessing d)"
  "preserves_loop P \<Longrightarrow> P d \<Longrightarrow> P (d\<lparr>victims := q\<rparr>)"
  by (auto simp: preserves_loop_def)

lemma trapSoul_body_preserves:
  assumes "preserves_loop P" "P d" "trapSoul_body ok d = (ctl, ok', d')"
  shows "P d'"
proof -
  define d1 where "d1 = logProcessing (updateLoopVariables d)"
  have p1: "P d1"
    using assms(1,2) by (simp add: d1_def preserves_loopD)
  note pr = preserves_loopD(1)[OF assms(1)]
  obtain rb db where b: "trapBlackSoul d1 = (rb, db)" by fastforce
  obtain rs ds where s: "trapSplitSoul d1 = (rs, ds)" by fastforce
  obtain rf df where f: "trapFullSoul d1 = (rf, df)" by fastforce
  obtain rk dk where k: "trapShrunkSoul df = (rk, dk)" by fastforce
  have pb: "P db" using trapBlackSoul_preserves[OF pr p1 b] .
  have ps: "P ds" using trapSplitSoul_preserves[OF pr p1 s] .
  have pf: "P df" using trapFullSoul_preserves[OF pr p1 f] .
  have pk: "P dk" using trapShrunkSoul_preserves[OF pr pf k] .
  from assms(3) show ?thesis
    using p1 pb ps pf pk preserves_loopD(4)[OF assms(1) ps] preserves_loopD(4)[OF assms(1) pf]
    by (auto simp: trapSoul_body_def Let_def d1_def[symmetric] b s f k split: if_splits)
qed

lemma trapSoul_loop_preserves:
  "preserves_loop P \<Longrightarrow> P d \<Longrightarrow> trapSoul_loop fuel ok d = Some (ok', d') \<Longrightarrow> P d'"
proof (induction fuel arbitrary: ok d)
  case 0
  then show ?case by (auto split: if_splits)
next
  case (Suc fuel)
  show ?case
  proof (cases "victims d = []")
    case True
    with Suc.prems show ?thesis by simp
  next
    case False
    obtain ctl ok1 d1 where b: "trapSoul_body ok d = (ctl, ok1, d1)"
      by (cases "trapSoul_body ok d") auto
    have p1: "P d1" using trapSoul_body_preserves[OF Suc.prems(1,2) b] .
    show ?thesis
    proof (cases ctl)
      case Break
      with Suc.prems(3) False b p1 show ?thesis by simp
    next
      case Continue
      with Suc.prems(3) False b have "trapSoul_loop fuel ok1 d1 = Some (ok', d')" by simp
      from Suc.IH[OF Suc.prems(1) p1 this] show ?thesis .
    qed
  qed
qed

lemma preserves_loop_acts_on: "preserves_loop (acts_on c0 A)"
  unfolding preserves_loop_def preserves_def
  by (auto simp: acts_on_def primitive_defs emplaceVictim_def logProcessing_def
      updateLoopVariables_def resetInventoryData_def getInventoryFor_def
      AddObjectToContainer_def RemoveItem_def Let_def
      split: option.splits list.splits)

lemma preserves_loop_latched: "preserves_loop (latched N0 E0)"
  unfolding preserves_loop_def preserves_def
  by (auto simp: latched_def primitive_defs emplaceVictim_def logProcessing_def
      updateLoopVariables_def resetInventoryData_def
      AddObjectToContainer_def RemoveItem_def Let_def
      split: option.splits list.splits)

lemmas loop_simps =
  trapBlackSoul_loop.simps trapFullSoul_relocation_inner.simps
  trapFullSoul_relocation_outer.simps trapFullSoul_norelocation_inner.simps
  trapFullSoul_norelocation_outer.simps trapShrunkSoul_inner.simps
  trapShrunkSoul_outer.simps trapSplitSoul_loop.simps

lemmas strategy_defs =
  trapSoul_def trapSoul_body_def logProcessing_def trapSoul_finish_def
  trapBlackSoul_def trapFullSoul_def trapShrunkSoul_def trapShrunkSoul_template_def
  trapSplitSoul_def splitSoul_def fillSoulGem_def fillWhiteSoulGem_def fillBlackSoulGem_def
  tryReplaceBlackSoulInDualSoulGemWithWhiteSoul_def
  lock_guard_def lock_guard_exit_def TrapSoulWrapper_exit_def
  getRemainingSoulLevelValue_def notifySoulTrapFailure_def

lemma diversion_run:
  "\<exists>h'. trapSoul (Suc 0) (Some 2) (Some (Suc 0)) diversion_host = Some (True, h') \<and>
     inventory (actors h' 0) = [(TESSoulGem 2 3 0, 0, []), (TESSoulGem 2 3 3, 1, [])]"
  by (simp add: diversion_host_def example_defs session_defs strategy_defs loop_simps
      victim_value_def getSoulGemsWith_def validContainedSize_def toSoulGemCapacity_def
      soulGemAt_def primitive_defs getFirstExtraDataList_def
      createExtraDataListFromOriginal_def AddObjectToContainer_def RemoveItem_def
      extraLists_of_def isPrimarySoul_def)


section \<open>Soul diversion\<close>

lemma preserves_loop_frame:
  "preserves_loop (\<lambda>x. caster x = c0 \<and> (\<forall>a. a \<noteq> c0 \<longrightarrow> actors (host x) a = A a))"
  unfolding preserves_loop_def preserves_def
  by (auto simp: primitive_defs emplaceVictim_def logProcessing_def
      updateLoopVariables_def resetInventoryData_def
      AddObjectToContainer_def RemoveItem_def Let_def
      split: option.splits list.splits)

lemma acts_on_new:
  "acts_on (caster (SoulTrapData_new c h)) (actors h)
     (emplaceVictim x (SoulTrapData_new c (lock_guard h)))"
  by (simp add: acts_on_def emplaceVictim_def SoulTrapData_new_def lock_guard_def Let_def)

lemma trapSoul_frame:
  assumes "trapSoul fuel (Some c) (Some v) h = Some (r, h')"
    and "a \<noteq> caster (SoulTrapData_new c h)"
  shows "inventory (actors h' a) = inventory (actors h a)"
proof (cases "IsDead (actors h c) \<or> \<not> IsDead (actors h v) \<or>
              getRemainingSoulLevelValue (lock_guard h) v = 0")
  case True
  with assms(1) have "actors h' = actors h"
    by (auto simp: trapSoul_def Let_def TrapSoulWrapper_exit_frame lock_guard_frame
        split: if_splits)
  then show ?thesis by simp
next
  case False
  define d0 where
    "d0 = emplaceVictim (Victim_actor (lock_guard h) v) (SoulTrapData_new c (lock_guard h))"
  from False assms(1) obtain d' where d':
    "trapSoul_loop fuel False d0 = Some (r, d')"
    "h' = TrapSoulWrapper_exit (lock_guard_exit (host (trapSoul_finish v r d')))"
    by (auto simp: trapSoul_def Let_def d0_def split: option.splits)
  have "acts_on (caster (SoulTrapData_new c h)) (actors h) d0"
    unfolding d0_def by (rule acts_on_new)
  from trapSoul_loop_preserves[OF preserves_loop_acts_on this d'(1)] assms(2)
  have "actors (host d') a = actors h a"
    by (simp add: acts_on_def)
  then have "inventory (actors (host (trapSoul_finish v r d')) a) = inventory (actors h a)"
    by (auto simp: trapSoul_finish_def notifySoulTrapFailure_def notify_def
        split: InventoryStatus.splits)
  then show ?thesis
    by (simp add: d'(2) TrapSoulWrapper_exit_frame lock_guard_exit_def)
qed

text \<open>
  C9. When both diversion flags are set and the caster is a teammate of the player but
  not the player, the session's caster is the player if the player reference resolves,
  and the caster given otherwise. The loop never changes the session's caster and never
  changes any actor other than that caster, and a snapshot that is not dirty is that
  caster's inventory: every scan and every replacement is on the effective caster. For a
  whole call, the inventory of every actor other than the effective caster is as before;
  with diversion this includes the caster that was passed in.
\<close>

theorem soul_diversion_acts_on_player:
  "(AllowSoulDiversion (globalConfig h) \<and> PerformSoulDiversionInDLL (globalConfig h) \<and>
    \<not> IsPlayerRef (actors h c) \<and> IsPlayerTeammate (actors h c) \<longrightarrow>
    caster (SoulTrapData_new c h) =
      (case playerRef h of Some playerActor \<Rightarrow> playerActor | None \<Rightarrow> c)) \<and>
   (trapSoul_loop fuel ok d = Some (ok', d') \<longrightarrow>
    caster d' = caster d \<and>
    (\<forall>a. a \<noteq> caster d \<longrightarrow> actors (host d') a = actors (host d) a) \<and>
    (isInventoryMapDirty d \<or> inventoryMap d = getInventoryFor (host d) (caster d) \<longrightarrow>
     isInventoryMapDirty d' \<or> inventoryMap d' = getInventoryFor (host d') (caster d'))) \<and>
   (trapSoul fuel (Some c) (Some v) h = Some (r, h') \<longrightarrow>
    (\<forall>a. a \<noteq> caster (SoulTrapData_new c h) \<longrightarrow>
         inventory (actors h' a) = inventory (actors h a)))"
proof (intro conjI impI allI)
  assume "AllowSoulDiversion (globalConfig h) \<and> PerformSoulDiversionInDLL (globalConfig h) \<and>
    \<not> IsPlayerRef (actors h c) \<and> IsPlayerTeammate (actors h c)"
  then show "caster (SoulTrapData_new c h) =
      (case playerRef h of Some playerActor \<Rightarrow> playerActor | None \<Rightarrow> c)"
    by (simp add: SoulTrapData_new_def Let_def)
next
  assume run: "trapSoul_loop fuel ok d = Some (ok', d')"
  from trapSoul_loop_preserves[OF preserves_loop_frame _ run, of "caster d" "actors (host d)"]
  show "caster d' = caster d" by simp
next
  fix a
  assume run: "trapSoul_loop fuel ok d = Some (ok', d')" and a: "a \<noteq> caster d"
  from trapSoul_loop_preserves[OF preserves_loop_frame _ run, of "caster d" "actors (host d)"] a
  show "actors (host d') a = actors (host d) a" by simp
next
  assume run: "trapSoul_loop fuel ok d = Some (ok', d')"
    and snap: "isInventoryMapDirty d \<or> inventoryMap d = getInventoryFor (host d) (caster d)"
  then have "acts_on (caster d) (actors (host d)) d"
    by (simp add: acts_on_def)
  from trapSoul_loop_preserves[OF preserves_loop_acts_on this run]
  show "isInventoryMapDirty d' \<or> inventoryMap d' = getInventoryFor (host d') (caster d')"
    by (auto simp: acts_on_def)
next
  fix a
  assume "trapSoul fuel (Some c) (Some v) h = Some (r, h')"
    and "a \<noteq> caster (SoulTrapData_new c h)"
  then show "inventory (actors h' a) = inventory (actors h a)"
    by (rule trapSoul_frame)
qed

lemma diversion_host_facts:
  "AllowSoulDiversion (globalConfig diversion_host)"
  "PerformSoulDiversionInDLL (globalConfig diversion_host)"
  "\<not> IsPlayerRef (actors diversion_host 2)" "IsPlayerTeammate (actors diversion_host 2)"
  "playerRef diversion_host = Some 0"
  "inventory (actors diversion_host 2) = [(TESSoulGem 2 3 0, 1, [])]"
  by (simp_all add: diversion_host_def example_defs)

theorem soul_diversion_acts_on_player_witness:
  "caster (SoulTrapData_new 2 diversion_host) = 0 \<and>
   returned (trapSoul (Suc 0) (Some 2) (Some (Suc 0)) diversion_host) = Some True \<and>
   inventoryAfter 2 (trapSoul (Suc 0) (Some 2) (Some (Suc 0)) diversion_host) =
     Some [(TESSoulGem 2 3 0, 1, [])] \<and>
   inventoryAfter 0 (trapSoul (Suc 0) (Some 2) (Some (Suc 0)) diversion_host) =
     Some [(TESSoulGem 2 3 0, 0, []), (TESSoulGem 2 3 3, 1, [])]"
proof -
  from diversion_run obtain h' where h':
    "trapSoul (Suc 0) (Some 2) (Some (Suc 0)) diversion_host = Some (True, h')"
    "inventory (actors h' 0) = [(TESSoulGem 2 3 0, 0, []), (TESSoulGem 2 3 3, 1, [])]"
    by blast
  note inst = soul_diversion_acts_on_player[where h = diversion_host and c = 2
      and v = "Suc 0" and fuel = "Suc 0" and r = True and h' = h']
  from inst diversion_host_facts have c: "caster (SoulTrapData_new 2 diversion_host) = 0"
    by simp
  from inst h'(1) c have "inventory (actors h' 2) = inventory (actors diversion_host 2)"
    by simp
  with h' c show ?thesis
    by (simp add: returned_def inventoryAfter_def diversion_host_facts)
qed

section \<open>Notifications and statistics events of one call\<close>

lemma preserves_loop_globalConfig: "preserves_loop (\<lambda>x. globalConfig (host x) = G)"
  unfolding preserves_loop_def preserves_def
  by (auto simp: primitive_defs emplaceVictim_def logProcessing_def
      updateLoopVariables_def resetInventoryData_def
      AddObjectToContainer_def RemoveItem_def Let_def
      split: option.splits list.splits)

lemma latched_new:
  "latched (notifications h) (soulsTrappedEvents h)
     (emplaceVictim x (SoulTrapData_new c (lock_guard h)))"
  by (simp add: latched_def emplaceVictim_def SoulTrapData_new_def lock_guard_def Let_def)

lemma latched_finish: "latched N0 E0 d \<Longrightarrow> latched N0 E0 (trapSoul_finish v r d)"
  by (auto simp: latched_def trapSoul_finish_def notifySoulTrapFailure_def notify_def
      split: InventoryStatus.splits)

lemma globalConfig_finish:
  "globalConfig (host (trapSoul_finish v r d)) = globalConfig (host d)"
  by (auto simp: trapSoul_finish_def notifySoulTrapFailure_def notify_def
      split: InventoryStatus.splits)

lemma latched_exit:
  assumes "latched (notifications h) (soulsTrappedEvents h) d"
    and "globalConfig (host d) = globalConfig h"
    and "h' = TrapSoulWrapper_exit (lock_guard_exit (host d))"
  shows "\<exists>new ev. notifications h' = notifications h @ new \<and>
       soulsTrappedEvents h' = soulsTrappedEvents h @ ev \<and> length ev \<le> 1 \<and>
       length (filter (\<lambda>n. n \<noteq> TimeTakenToTrapSoul) new) \<le> 1 \<and>
       length (filter (\<lambda>n. n = TimeTakenToTrapSoul) new) =
         (if AllowProfiling (globalConfig h) then 1 else 0)"
proof -
  from assms(1) obtain new ev where l: "notifications (host d) = notifications h @ new"
    "length new = notifyCount d" "notifyCount d \<le> 1" "TimeTakenToTrapSoul \<notin> set new"
    "soulsTrappedEvents (host d) = soulsTrappedEvents h @ ev"
    "length ev = (if isStatIncremented d then 1 else 0)"
    by (auto simp: latched_def)
  from l(4) have f: "filter (\<lambda>n. n \<noteq> TimeTakenToTrapSoul) new = new"
    "filter (\<lambda>n. n = TimeTakenToTrapSoul) new = []"
    by (auto simp: filter_id_conv filter_empty_conv)
  let ?new = "new @ (if AllowProfiling (globalConfig h) then [TimeTakenToTrapSoul] else [])"
  have "notifications h' = notifications h @ ?new"
    "soulsTrappedEvents h' = soulsTrappedEvents h @ ev"
    using l(1,5) assms(2)
    by (simp_all add: assms(3) TrapSoulWrapper_exit_def lock_guard_exit_def)
  moreover have "length ev \<le> 1" using l(6) by (simp split: if_splits)
  moreover have "length (filter (\<lambda>n. n \<noteq> TimeTakenToTrapSoul) ?new) \<le> 1"
    using l(2,3) by (simp add: f)
  moreover have "length (filter (\<lambda>n. n = TimeTakenToTrapSoul) ?new) =
         (if AllowProfiling (globalConfig h) then 1 else 0)"
    by (simp add: f)
  ultimately show ?thesis by blast
qed

lemma exit_only:
  assumes "notifications h1 = notifications h" "soulsTrappedEvents h1 = soulsTrappedEvents h"
    and "globalConfig h1 = globalConfig h" and "h' = TrapSoulWrapper_exit h1"
  shows "\<exists>new ev. notifications h' = notifications h @ new \<and>
       soulsTrappedEvents h' = soulsTrappedEvents h @ ev \<and> length ev \<le> 1 \<and>
       length (filter (\<lambda>n. n \<noteq> TimeTakenToTrapSoul) new) \<le> 1 \<and>
       length (filter (\<lambda>n. n = TimeTakenToTrapSoul) new) =
         (if AllowProfiling (globalConfig h) then 1 else 0)"
proof -
  let ?new = "if AllowProfiling (globalConfig h) then [TimeTakenToTrapSoul] else []"
  have "notifications h' = notifications h @ ?new"
    "soulsTrappedEvents h' = soulsTrappedEvents h @ []"
    using assms by (simp_all add: TrapSoulWrapper_exit_def)
  moreover have "length (filter (\<lambda>n. n \<noteq> TimeTakenToTrapSoul) ?new) \<le> 1"
    "length (filter (\<lambda>n. n = TimeTakenToTrapSoul) ?new) =
         (if AllowProfiling (globalConfig h) then 1 else 0)"
    by simp_all
  ultimately show ?thesis
    by (metis list.size(3) zero_le)
qed

text \<open>
  C8 (as the code has it). In one call of \<open>trapSoul\<close> that returns, the host's
  notifications and statistics events only grow. At most one statistics event is added.
  Among the added notifications at most one is a soul-trap message (success or failure):
  this is what the two latches of the session ensure, however many souls are processed.
  The message with the time taken is added as well, once, exactly when profiling is
  enabled in the global configuration.
\<close>

theorem trapSoul_notifies_once:
  assumes "trapSoul fuel casterPtr victimPtr h = Some (r, h')"
  shows "\<exists>new ev. notifications h' = notifications h @ new \<and>
       soulsTrappedEvents h' = soulsTrappedEvents h @ ev \<and> length ev \<le> 1 \<and>
       length (filter (\<lambda>n. n \<noteq> TimeTakenToTrapSoul) new) \<le> 1 \<and>
       length (filter (\<lambda>n. n = TimeTakenToTrapSoul) new) =
         (if AllowProfiling (globalConfig h) then 1 else 0)"
proof -
  consider (early) "h' = TrapSoulWrapper_exit h"
    | (drained) "h' = TrapSoulWrapper_exit (lock_guard_exit (lock_guard h))"
    | (run) c v d' where "casterPtr = Some c" "victimPtr = Some v"
        "trapSoul_loop fuel False
           (emplaceVictim (Victim_actor (lock_guard h) v) (SoulTrapData_new c (lock_guard h)))
           = Some (r, d')"
        "h' = TrapSoulWrapper_exit (lock_guard_exit (host (trapSoul_finish v r d')))"
    using assms
    by (auto simp: trapSoul_def Let_def split: option.splits if_splits)
  then show ?thesis
  proof cases
    case early
    show ?thesis
      by (rule exit_only[OF _ _ _ early]) simp_all
  next
    case drained
    show ?thesis
      by (rule exit_only[OF _ _ _ drained]) (simp_all add: lock_guard_def lock_guard_exit_def)
  next
    case run
    let ?d0 = "emplaceVictim (Victim_actor (lock_guard h) v)
                 (SoulTrapData_new c (lock_guard h))"
    have g0: "globalConfig (host ?d0) = globalConfig h"
      by (simp add: emplaceVictim_def SoulTrapData_new_def lock_guard_def Let_def)
    from trapSoul_loop_preserves[OF preserves_loop_latched latched_new run(3)]
    have "latched (notifications h) (soulsTrappedEvents h) (trapSoul_finish v r d')"
      by (rule latched_finish)
    moreover from trapSoul_loop_preserves[OF preserves_loop_globalConfig g0 run(3)]
    have "globalConfig (host (trapSoul_finish v r d')) = globalConfig h"
      by (simp add: globalConfig_finish)
    ultimately show ?thesis
      using run(4) by (rule latched_exit)
  qed
qed

lemma profiling_run:
  "trapSoul (Suc 0) (Some 0) (Some (Suc 0)) profiling_host \<noteq> None \<and>
   notificationsAfter (trapSoul (Suc 0) (Some 0) (Some (Suc 0)) profiling_host) =
     Some [Success SoulCaptured, TimeTakenToTrapSoul]"
  by (simp add: notificationsAfter_def profiling_host_def example_defs session_defs
      strategy_defs loop_simps
      victim_value_def getSoulGemsWith_def validContainedSize_def toSoulGemCapacity_def
      soulGemAt_def primitive_defs getFirstExtraDataList_def
      createExtraDataListFromOriginal_def AddObjectToContainer_def RemoveItem_def
      extraLists_of_def isPrimarySoul_def)

theorem trapSoul_notifies_once_witness:
  "\<exists>r h' new ev. trapSoul (Suc 0) (Some 0) (Some (Suc 0)) profiling_host = Some (r, h') \<and>
     notifications h' = notifications profiling_host @ new \<and>
     soulsTrappedEvents h' = soulsTrappedEvents profiling_host @ ev \<and> length ev \<le> 1 \<and>
     length (filter (\<lambda>n. n \<noteq> TimeTakenToTrapSoul) new) \<le> 1 \<and>
     length (filter (\<lambda>n. n = TimeTakenToTrapSoul) new) = 1"
proof -
  from profiling_run obtain r h' where
    run: "trapSoul (Suc 0) (Some 0) (Some (Suc 0)) profiling_host = Some (r, h')"
    by auto
  have "AllowProfiling (globalConfig profiling_host)"
    by (simp add: profiling_host_def example_defs)
  with trapSoul_notifies_once[OF run] run show ?thesis
    by auto
qed

text \<open>
  The wording of the specification does not hold here: with profiling enabled, one call that places one soul sends
  two notifications to the user, the capture message and the time taken.
\<close>

theorem two_notifications_counterexample:
  "notificationsAfter (trapSoul (Suc 0) (Some 0) (Some (Suc 0)) profiling_host) =
     Some [Success SoulCaptured, TimeTakenToTrapSoul]"
  using profiling_run by simp

end
